theory Spec2Isabelle
  imports Complex_Main "HOL-Library.Multiset"
begin

section \<open>JavaScript values used by the export core\<close>

text \<open>
  A JavaScript number is modelled as an exact rational or one of the three special
  values of IEEE-754 that the code can meet.  Arithmetic on finite values is exact:
  the rounding of doubles and the sign of zero are not modelled.
\<close>

datatype jsnum = Num rat | PosInf | NegInf | NaN

fun js_neg :: "jsnum \<Rightarrow> jsnum" where
  "js_neg (Num a) = Num (- a)"
| "js_neg PosInf = NegInf"
| "js_neg NegInf = PosInf"
| "js_neg NaN = NaN"

fun js_add :: "jsnum \<Rightarrow> jsnum \<Rightarrow> jsnum" where
  "js_add (Num a) (Num b) = Num (a + b)"
| "js_add NaN _ = NaN"
| "js_add _ NaN = NaN"
| "js_add PosInf NegInf = NaN"
| "js_add NegInf PosInf = NaN"
| "js_add PosInf _ = PosInf"
| "js_add _ PosInf = PosInf"
| "js_add NegInf _ = NegInf"
| "js_add _ NegInf = NegInf"

definition js_sub :: "jsnum \<Rightarrow> jsnum \<Rightarrow> jsnum" where
  "js_sub a b = js_add a (js_neg b)"

fun js_negative :: "jsnum \<Rightarrow> bool" where
  "js_negative (Num a) = (a < 0)"
| "js_negative NegInf = True"
| "js_negative _ = False"

fun js_mul :: "jsnum \<Rightarrow> jsnum \<Rightarrow> jsnum" where
  "js_mul (Num a) (Num b) = Num (a * b)"
| "js_mul NaN _ = NaN"
| "js_mul _ NaN = NaN"
| "js_mul a b =
     (if a = Num 0 \<or> b = Num 0 then NaN
      else if js_negative a = js_negative b then PosInf else NegInf)"

fun js_div :: "jsnum \<Rightarrow> jsnum \<Rightarrow> jsnum" where
  "js_div (Num a) (Num b) =
     (if b \<noteq> 0 then Num (a / b)
      else if a = 0 then NaN
      else if 0 < a then PosInf else NegInf)"
| "js_div NaN _ = NaN"
| "js_div _ NaN = NaN"
| "js_div (Num a) _ = Num 0"
| "js_div a (Num b) = (if js_negative a = (b < 0) then PosInf else NegInf)"
| "js_div _ _ = NaN"

fun js_lt :: "jsnum \<Rightarrow> jsnum \<Rightarrow> bool" where
  "js_lt (Num a) (Num b) = (a < b)"
| "js_lt NaN _ = False"
| "js_lt _ NaN = False"
| "js_lt NegInf NegInf = False"
| "js_lt NegInf _ = True"
| "js_lt _ NegInf = False"
| "js_lt PosInf _ = False"
| "js_lt _ PosInf = True"

definition js_gt :: "jsnum \<Rightarrow> jsnum \<Rightarrow> bool" where
  "js_gt a b = js_lt b a"

text \<open>\<open>x || 0\<close> on a number: \<open>NaN\<close> and zero are falsy.\<close>

fun or_zero :: "jsnum \<Rightarrow> jsnum" where
  "or_zero NaN = Num 0"
| "or_zero x = x"

text \<open>\<open>s || "0"\<close> on a string: the empty string is falsy.\<close>

definition or_str :: "string \<Rightarrow> string \<Rightarrow> string" where
  "or_str s d = (if s = [] then d else s)"


subsection \<open>Numbers to strings\<close>

definition digit_char :: "nat \<Rightarrow> char" where
  "digit_char d = char_of (48 + d)"

fun show_nat :: "nat \<Rightarrow> string" where
  "show_nat n = (if n < 10 then [digit_char n] else show_nat (n div 10) @ [digit_char (n mod 10)])"

declare show_nat.simps [simp del]

definition show_int :: "int \<Rightarrow> string" where
  "show_int i = (if i < 0 then CHR ''-'' # show_nat (nat (- i)) else show_nat (nat i))"

definition hundredths :: "rat \<Rightarrow> nat" where
  \<comment> \<open>the integer \<open>n\<close> for which \<open>n / 100\<close> is closest to \<open>|r|\<close>, the larger one on a tie\<close>
  "hundredths r = nat \<lfloor>\<bar>r\<bar> * 100 + 1 / 2\<rfloor>"

text \<open>\<open>Number.prototype.toFixed(2)\<close>.\<close>

fun toFixed2 :: "jsnum \<Rightarrow> string" where
  "toFixed2 (Num r) =
     (let n = hundredths r in
      (if r < 0 then ''-'' else '''') @ show_nat (n div 100) @ ''.'' @
      [digit_char (n mod 100 div 10), digit_char (n mod 10)])"
| "toFixed2 PosInf = ''Infinity''"
| "toFixed2 NegInf = ''-Infinity''"
| "toFixed2 NaN = ''NaN''"

text \<open>\<open>Number(x.toFixed(2))\<close>: the value the two-decimal string denotes.\<close>

fun round2 :: "jsnum \<Rightarrow> jsnum" where
  "round2 (Num r) = Num ((if r < 0 then - 1 else 1) * of_nat (hundredths r) / 100)"
| "round2 x = x"

text \<open>
  Number-to-string conversion inside a template literal, for the values it is applied
  to in the export: results of \<open>Number(x.toFixed(2))\<close>, which have at most two
  decimals.  The shortest decimal is printed (no trailing zeros).
\<close>

fun num_to_string :: "jsnum \<Rightarrow> string" where
  "num_to_string (Num r) =
     (let n = hundredths r; neg = (r < 0 \<and> n \<noteq> 0) in
      (if neg then ''-'' else '''') @ show_nat (n div 100) @
      (if n mod 100 = 0 then ''''
       else if n mod 10 = 0 then ''.'' @ [digit_char (n mod 100 div 10)]
       else ''.'' @ [digit_char (n mod 100 div 10), digit_char (n mod 10)]))"
| "num_to_string PosInf = ''Infinity''"
| "num_to_string NegInf = ''-Infinity''"
| "num_to_string NaN = ''NaN''"

subsection \<open>\<open>parseInt\<close>\<close>

text \<open>
  \<open>parseInt\<close> of a string, without a radix argument: leading white space is skipped
  (the white space of ASCII; the other white space characters of Unicode are not
  modelled), then a sign, then a \<open>0x\<close> prefix, and the longest run of digits of the
  radix is read.  The result is \<open>NaN\<close> when there is no digit.
\<close>

definition is_ws :: "char \<Rightarrow> bool" where
  "is_ws c = (c \<in> {CHR '' '', CHR 0x09, CHR 0x0A, CHR 0x0B, CHR 0x0C, CHR 0x0D})"

definition digit_val :: "nat \<Rightarrow> char \<Rightarrow> nat option" where
  "digit_val radix c =
     (let n = (of_char c :: nat);
          v = (if 48 \<le> n \<and> n \<le> 57 then Some (n - 48)
               else if 97 \<le> n \<and> n \<le> 122 then Some (n - 87)
               else if 65 \<le> n \<and> n \<le> 90 then Some (n - 55)
               else None)
      in case v of None \<Rightarrow> None | Some d \<Rightarrow> if d < radix then Some d else None)"

definition strip_sign :: "string \<Rightarrow> int \<times> string" where
  "strip_sign s =
     (case s of
        c # r \<Rightarrow> if c = CHR ''-'' then (- 1, r) else if c = CHR ''+'' then (1, r) else (1, s)
      | [] \<Rightarrow> (1, s))"

definition strip_radix :: "string \<Rightarrow> nat \<times> string" where
  \<comment> \<open>no radix argument is given: 16 after a \<open>0x\<close> or \<open>0X\<close> prefix, 10 otherwise\<close>
  "strip_radix s =
     (case s of
        a # b # r \<Rightarrow> if a = CHR ''0'' \<and> (b = CHR ''x'' \<or> b = CHR ''X'') then (16, r) else (10, s)
      | _ \<Rightarrow> (10, s))"

definition digits_value :: "nat \<Rightarrow> string \<Rightarrow> nat" where
  "digits_value radix ds = foldl (\<lambda>acc c. acc * radix + the (digit_val radix c)) 0 ds"

text \<open>The integer that \<open>parseInt\<close> reads, \<open>None\<close> where it returns \<open>NaN\<close>.\<close>

definition parseInt_int :: "string \<Rightarrow> int option" where
  "parseInt_int s =
     (let (sign, s2) = strip_sign (dropWhile is_ws s);
          (radix, s3) = strip_radix s2;
          ds = takeWhile (\<lambda>c. digit_val radix c \<noteq> None) s3
      in if ds = [] then None else Some (sign * int (digits_value radix ds)))"

definition parseInt :: "string \<Rightarrow> jsnum" where
  "parseInt s = (case parseInt_int s of None \<Rightarrow> NaN | Some i \<Rightarrow> Num (of_int i))"

subsection \<open>\<open>Array.prototype.sort\<close> with a comparator\<close>

text \<open>
  The sort is stable; a comparator result that is not greater than zero (this includes
  \<open>NaN\<close>) leaves the two elements in their order.
\<close>

fun insert_by :: "('a \<Rightarrow> 'a \<Rightarrow> jsnum) \<Rightarrow> 'a \<Rightarrow> 'a list \<Rightarrow> 'a list" where
  "insert_by cmp x [] = [x]"
| "insert_by cmp x (y # ys) =
     (if js_gt (cmp x y) (Num 0) then y # insert_by cmp x ys else x # y # ys)"

definition sort_by :: "('a \<Rightarrow> 'a \<Rightarrow> jsnum) \<Rightarrow> 'a list \<Rightarrow> 'a list" where
  "sort_by cmp xs = foldr (insert_by cmp) xs []"

section \<open>The document builder (excel-export)\<close>

text \<open>
  Library calls whose code is not part of the repository are parameters of the model:
  \<^item> \<open>newDate s\<close> is \<open>new Date(s).getTime()\<close>, with \<open>None\<close> for an invalid date;
  \<^item> \<open>formatCreated s\<close> is \<open>format(parseISO(s), "MMM dd, yyyy")\<close> of date-fns, with
    \<open>None\<close> where \<open>format\<close> throws a \<open>RangeError\<close> (invalid date);
  \<^item> \<open>formatYMD d\<close> is \<open>format(d, "yyyy-MM-dd")\<close> on a valid date;
  \<^item> \<open>nowLocale\<close> is \<open>new Date().toLocaleString()\<close> at the time of the export.
  A \<open>Date\<close> is its time value in milliseconds.
\<close>

record lib =
  newDate :: "string \<Rightarrow> int option"
  formatCreated :: "string \<Rightarrow> string option"
  formatYMD :: "int \<Rightarrow> string"
  nowLocale :: string

record campaign =
  c_id :: int
  c_name :: string
  c_status :: string
  c_created_at :: string
  c_client_id :: "int option"

text \<open>The fields of \<open>SmartleadCampaignAnalytics\<close> that the export reads.\<close>

record analytics =
  a_id :: int
  a_sent_count :: string
  a_open_count :: string
  a_click_count :: string
  a_reply_count :: string
  a_bounce_count :: string
  a_sequence_count :: string
  a_lead_total :: "int option"

record ClientData =
  cl_id :: int
  cl_name :: string
  cl_email :: string

record CampaignExportData =
  ex_id :: int
  name :: string
  status :: string
  created_at :: string
  client_name :: string
  sent_count :: string
  open_count :: string
  click_count :: string
  reply_count :: string
  bounce_count :: string
  sequence_count :: string
  total_leads :: int
  open_rate :: jsnum
  click_rate :: jsnum
  reply_rate :: jsnum
  bounce_rate :: jsnum

datatype cell = CStr string | CNum jsnum

type_synonym sheet = "cell list list"

type_synonym workbook = "(string \<times> sheet) list"

definition getClientName :: "int option \<Rightarrow> ClientData list \<Rightarrow> string" where
  "getClientName clientId clients =
     (case clientId of
        None \<Rightarrow> ''No Client''
      | Some i \<Rightarrow>
          if i = 0 then ''No Client''
          else (case find (\<lambda>c. cl_id c = i) clients of
                  Some client \<Rightarrow> cl_name client
                | None \<Rightarrow> ''Client '' @ show_int i))"

text \<open>
  \<open>campaign.client_id === parseInt(selectedClientId)\<close>: strict equality of an optional
  number with a number that may be \<open>NaN\<close>.
\<close>

definition client_id_is :: "int option \<Rightarrow> jsnum \<Rightarrow> bool" where
  "client_id_is cid n = (case cid of None \<Rightarrow> False | Some i \<Rightarrow> n = Num (of_int i))"

definition isInDateRange :: "lib \<Rightarrow> int \<Rightarrow> int \<Rightarrow> campaign \<Rightarrow> bool" where
  "isInDateRange L startDate endDate c =
     (case newDate L (c_created_at c) of
        None \<Rightarrow> False
      | Some campaignDate \<Rightarrow> startDate \<le> campaignDate \<and> campaignDate \<le> endDate)"

definition export_filter :: "lib \<Rightarrow> int \<Rightarrow> int \<Rightarrow> string option \<Rightarrow> campaign \<Rightarrow> bool" where
  "export_filter L startDate endDate selectedClientId c =
     (isInDateRange L startDate endDate c \<and>
      (case selectedClientId of
         None \<Rightarrow> True
       | Some s \<Rightarrow> s = [] \<or> s = ''all'' \<or> client_id_is (c_client_id c) (parseInt s)))"

definition rate :: "jsnum \<Rightarrow> jsnum \<Rightarrow> jsnum" where
  \<comment> \<open>\<open>sentCount > 0 ? (count / sentCount) * 100 : 0\<close>\<close>
  "rate cnt sentCount =
     (if js_gt sentCount (Num 0) then js_mul (js_div cnt sentCount) (Num 100) else Num 0)"

definition export_row :: "analytics list \<Rightarrow> ClientData list \<Rightarrow> campaign \<Rightarrow> CampaignExportData" where
  "export_row analytics clients c =
     (case find (\<lambda>a. a_id a = c_id c) analytics of
        None \<Rightarrow>
          \<lparr>ex_id = c_id c,
           name = or_str (c_name c) (''Campaign '' @ show_int (c_id c)),
           status = c_status c,
           created_at = c_created_at c,
           client_name = getClientName (c_client_id c) clients,
           sent_count = ''0'', open_count = ''0'', click_count = ''0'',
           reply_count = ''0'', bounce_count = ''0'', sequence_count = ''0'',
           total_leads = 0,
           open_rate = Num 0, click_rate = Num 0, reply_rate = Num 0, bounce_rate = Num 0\<rparr>
      | Some ca \<Rightarrow>
          (let sentCount = or_zero (parseInt (a_sent_count ca));
               openCount = or_zero (parseInt (a_open_count ca));
               clickCount = or_zero (parseInt (a_click_count ca));
               replyCount = or_zero (parseInt (a_reply_count ca));
               bounceCount = or_zero (parseInt (a_bounce_count ca))
           in
           \<lparr>ex_id = c_id c,
            name = or_str (c_name c) (''Campaign '' @ show_int (c_id c)),
            status = c_status c,
            created_at = c_created_at c,
            client_name = getClientName (c_client_id c) clients,
            sent_count = or_str (a_sent_count ca) ''0'',
            open_count = or_str (a_open_count ca) ''0'',
            click_count = or_str (a_click_count ca) ''0'',
            reply_count = or_str (a_reply_count ca) ''0'',
            bounce_count = or_str (a_bounce_count ca) ''0'',
            sequence_count = or_str (a_sequence_count ca) ''0'',
            total_leads = (case a_lead_total ca of None \<Rightarrow> 0 | Some t \<Rightarrow> t),
            open_rate = rate openCount sentCount,
            click_rate = rate clickCount sentCount,
            reply_rate = rate replyCount sentCount,
            bounce_rate = rate bounceCount sentCount\<rparr>))"

definition data_headers :: "cell list" where
  "data_headers = map CStr
     [''Campaign ID'', ''Campaign Name'', ''Status'', ''Created Date'', ''Client Name'',
      ''Sent Count'', ''Open Count'', ''Click Count'', ''Reply Count'', ''Bounce Count'',
      ''Open Rate %'', ''Click Rate %'', ''Reply Rate %'', ''Bounce Rate %'',
      ''Sequence Count'', ''Total Leads'']"

definition data_row :: "string \<Rightarrow> CampaignExportData \<Rightarrow> cell list" where
  "data_row created item =
     [CNum (Num (of_int (ex_id item))), CStr (name item), CStr (status item),
      CStr created, CStr (client_name item),
      CNum (parseInt (sent_count item)), CNum (parseInt (open_count item)),
      CNum (parseInt (click_count item)), CNum (parseInt (reply_count item)),
      CNum (parseInt (bounce_count item)),
      CNum (round2 (open_rate item)), CNum (round2 (click_rate item)),
      CNum (round2 (reply_rate item)), CNum (round2 (bounce_rate item)),
      CNum (parseInt (sequence_count item)), CNum (Num (of_int (total_leads item)))]"

text \<open>
  The rows are built one campaign after the other; the first creation date that
  date-fns cannot format throws, and the sheet is not built (\<open>None\<close>).
\<close>

fun data_rows :: "lib \<Rightarrow> CampaignExportData list \<Rightarrow> sheet option" where
  "data_rows L [] = Some []"
| "data_rows L (item # items) =
     (case formatCreated L (created_at item) of
        None \<Rightarrow> None
      | Some created \<Rightarrow>
          (case data_rows L items of
             None \<Rightarrow> None
           | Some rows \<Rightarrow> Some (data_row created item # rows)))"

definition createDataSheet :: "lib \<Rightarrow> CampaignExportData list \<Rightarrow> sheet option" where
  "createDataSheet L data =
     (case data_rows L data of None \<Rightarrow> None | Some rows \<Rightarrow> Some (data_headers # rows))"

subsection \<open>Chart and summary sheets\<close>

definition sum_rate :: "(CampaignExportData \<Rightarrow> jsnum) \<Rightarrow> CampaignExportData list \<Rightarrow> jsnum" where
  \<comment> \<open>\<open>data.reduce((sum, c) => sum + c.field, 0)\<close>\<close>
  "sum_rate field data = foldl (\<lambda>sum c. js_add sum (field c)) (Num 0) data"

definition sum_count :: "(CampaignExportData \<Rightarrow> string) \<Rightarrow> CampaignExportData list \<Rightarrow> jsnum" where
  \<comment> \<open>\<open>data.reduce((sum, c) => sum + parseInt(c.field), 0)\<close>\<close>
  "sum_count field data = foldl (\<lambda>sum c. js_add sum (parseInt (field c))) (Num 0) data"

definition js_length :: "'a list \<Rightarrow> jsnum" where
  "js_length xs = Num (of_nat (length xs))"

definition average :: "(CampaignExportData \<Rightarrow> jsnum) \<Rightarrow> CampaignExportData list \<Rightarrow> jsnum" where
  \<comment> \<open>\<open>data.reduce((sum, c) => sum + c.field, 0) / data.length\<close>\<close>
  "average field data = js_div (sum_rate field data) (js_length data)"

definition by_reply_desc :: "CampaignExportData \<Rightarrow> CampaignExportData \<Rightarrow> jsnum" where
  "by_reply_desc a b = js_sub (reply_rate b) (reply_rate a)"

definition by_reply_asc :: "CampaignExportData \<Rightarrow> CampaignExportData \<Rightarrow> jsnum" where
  "by_reply_asc a b = js_sub (reply_rate a) (reply_rate b)"

text \<open>The pictographs of the section labels, as their UTF-8 bytes.\<close>

definition emoji_bar :: string where
  "emoji_bar = [CHR 0xF0, CHR 0x9F, CHR 0x93, CHR 0x8A]"

definition emoji_target :: string where
  "emoji_target = [CHR 0xF0, CHR 0x9F, CHR 0x8E, CHR 0xAF]"

definition emoji_up :: string where
  "emoji_up = [CHR 0xF0, CHR 0x9F, CHR 0x93, CHR 0x88]"

definition emoji_pie :: string where
  "emoji_pie = [CHR 0xF0, CHR 0x9F, CHR 0xA5, CHR 0xA7]"

definition emoji_down :: string where
  "emoji_down = [CHR 0xF0, CHR 0x9F, CHR 0x93, CHR 0x89]"

definition clientPerformance :: "CampaignExportData list \<Rightarrow> ClientData list \<Rightarrow> (string \<times> jsnum \<times> nat) list" where
  "clientPerformance data clients =
     filter (\<lambda>(client, avgReplyRate, campaignCount). campaignCount > 0)
       (map (\<lambda>client.
          (let clientCampaigns = filter (\<lambda>c. client_name c = cl_name client) data in
           if length clientCampaigns = 0 then (cl_name client, Num 0, 0)
           else (cl_name client, round2 (average reply_rate clientCampaigns),
                 length clientCampaigns))) clients)"

definition chart_metrics :: "CampaignExportData list \<Rightarrow> sheet" where
  "chart_metrics data =
     [[CStr ''Open Rate'', CNum (average open_rate data), CNum (Num 25)],
      [CStr ''Click Rate'', CNum (average click_rate data), CNum (Num 5)],
      [CStr ''Reply Rate'', CNum (average reply_rate data), CNum (Num 2)],
      [CStr ''Bounce Rate'', CNum (average bounce_rate data), CNum (Num 2)]]"

definition campaign_chart_row :: "CampaignExportData \<Rightarrow> cell list" where
  "campaign_chart_row c = [CStr (name c), CNum (reply_rate c), CNum (parseInt (sent_count c))]"

definition createChartsSheet :: "CampaignExportData list \<Rightarrow> ClientData list \<Rightarrow> sheet" where
  "createChartsSheet data clients =
     (let topCampaigns = take 10 (sort_by by_reply_desc data);
          perf = clientPerformance data clients
      in
      [[CStr (emoji_bar @ '' EXCEL CHART CREATION GUIDE'')],
       [CStr []],
       [CStr (emoji_target @ '' HOW TO CREATE CHARTS:'')],
       [CStr ''1. Select the data range for your chart (including headers)''],
       [CStr ''2. Go to Insert > Charts in Excel''],
       [CStr ''3. Choose your preferred chart type''],
       [CStr ''4. Excel will automatically create the chart''],
       [CStr []],
       [CStr (emoji_up @ '' CHART 1: TOP CAMPAIGNS BY REPLY RATE (Bar Chart)'')],
       [CStr ''Select cells A10:C20 below to create a bar chart''],
       [CStr ''Campaign Name'', CStr ''Reply Rate %'', CStr ''Sent Count'']] @
      map campaign_chart_row topCampaigns @
      [[CStr []],
       [CStr (emoji_bar @ '' CHART 2: CLIENT PERFORMANCE COMPARISON (Bar Chart)'')],
       [CStr ''Select cells A23:C30 below to create a bar chart''],
       [CStr ''Client Name'', CStr ''Average Reply Rate %'', CStr ''Campaign Count'']] @
      map (\<lambda>(client, avgReplyRate, campaignCount).
             [CStr client, CNum avgReplyRate, CNum (Num (of_nat campaignCount))]) perf @
      [[CStr []],
       [CStr (emoji_pie @ '' CHART 3: CAMPAIGN DISTRIBUTION BY CLIENT (Pie Chart)'')],
       [CStr ''Select cells A33:B40 below to create a pie chart''],
       [CStr ''Client Name'', CStr ''Campaign Count'']] @
      map (\<lambda>(client, avgReplyRate, campaignCount).
             [CStr client, CNum (Num (of_nat campaignCount))]) perf @
      [[CStr []],
       [CStr (emoji_down @ '' CHART 4: REPLY RATE TREND (Line Chart)'')],
       [CStr ''Select cells A43:C50 below to create a line chart''],
       [CStr ''Campaign Name'', CStr ''Reply Rate %'', CStr ''Sent Count'']] @
      map campaign_chart_row (take 8 data) @
      [[CStr []],
       [CStr (emoji_bar @ '' CHART 5: PERFORMANCE METRICS COMPARISON (Radar Chart)'')],
       [CStr ''Select cells A53:C60 below to create a radar chart''],
       [CStr ''Metric'', CStr ''Value'', CStr ''Target'']] @
      chart_metrics data)"

definition percent_of :: "jsnum \<Rightarrow> jsnum \<Rightarrow> jsnum" where
  \<comment> \<open>\<open>totalSent > 0 ? (total / totalSent) * 100 : 0\<close>\<close>
  "percent_of tot totalSent =
     (if js_gt totalSent (Num 0) then js_mul (js_div tot totalSent) (Num 100) else Num 0)"

definition topPerformers :: "CampaignExportData list \<Rightarrow> CampaignExportData list" where
  "topPerformers data = take 5 (sort_by by_reply_desc data)"

definition needs_improvement :: "CampaignExportData \<Rightarrow> bool" where
  \<comment> \<open>\<open>c.reply_rate < 2 && parseInt(c.sent_count) > 10\<close>\<close>
  "needs_improvement c =
     (js_lt (reply_rate c) (Num 2) \<and> js_gt (parseInt (sent_count c)) (Num 10))"

definition lowPerformers :: "CampaignExportData list \<Rightarrow> CampaignExportData list" where
  "lowPerformers data = take 5 (sort_by by_reply_asc (filter needs_improvement data))"

definition clientSummary :: "CampaignExportData list \<Rightarrow> ClientData list \<Rightarrow> (string \<times> nat \<times> jsnum \<times> jsnum \<times> jsnum) list" where
  "clientSummary data clients =
     List.map_filter (\<lambda>client.
        (let clientCampaigns = filter (\<lambda>c. client_name c = cl_name client) data in
         if length clientCampaigns = 0 then None
         else
           (let clientSent = sum_count sent_count clientCampaigns;
                clientReplies = sum_count reply_count clientCampaigns;
                clientReplyRate = percent_of clientReplies clientSent
            in Some (cl_name client, length clientCampaigns, clientSent, clientReplies,
                     round2 clientReplyRate)))) clients"

definition performer_row :: "CampaignExportData \<Rightarrow> cell list" where
  "performer_row c =
     [CStr (name c), CStr (toFixed2 (reply_rate c) @ ''%''), CNum (parseInt (sent_count c)),
      CStr (client_name c)]"

definition createSummarySheet :: "lib \<Rightarrow> CampaignExportData list \<Rightarrow> ClientData list \<Rightarrow> sheet" where
  "createSummarySheet L data clients =
     (if length data = 0 then [[CStr ''No data available for the selected criteria'']]
      else
       (let totalCampaigns = js_length data;
            totalSent = sum_count sent_count data;
            totalOpens = sum_count open_count data;
            totalClicks = sum_count click_count data;
            totalReplies = sum_count reply_count data;
            totalBounces = sum_count bounce_count data;
            avgOpenRate = percent_of totalOpens totalSent;
            avgClickRate = percent_of totalClicks totalSent;
            avgReplyRate = percent_of totalReplies totalSent;
            avgBounceRate = percent_of totalBounces totalSent
        in
        [[CStr ''SMARTLEAD CAMPAIGN EXPORT SUMMARY''],
         [CStr ''Generated on:'', CStr (nowLocale L)],
         [CStr []],
         [CStr ''EXPORT PERIOD''],
         [CStr ''Total Campaigns'', CNum totalCampaigns],
         [CStr ''Total Emails Sent'', CNum totalSent],
         [CStr []],
         [CStr ''OVERALL PERFORMANCE''],
         [CStr ''Average Open Rate'', CStr (toFixed2 avgOpenRate @ ''%'')],
         [CStr ''Average Click Rate'', CStr (toFixed2 avgClickRate @ ''%'')],
         [CStr ''Average Reply Rate'', CStr (toFixed2 avgReplyRate @ ''%'')],
         [CStr ''Average Bounce Rate'', CStr (toFixed2 avgBounceRate @ ''%'')],
         [CStr []],
         [CStr ''CLIENT PERFORMANCE SUMMARY''],
         [CStr ''Client Name'', CStr ''Campaigns'', CStr ''Total Sent'', CStr ''Total Replies'',
          CStr ''Reply Rate %'']] @
        map (\<lambda>(client, campaigns, clientSent, clientReplies, replyRate).
               [CStr client, CNum (Num (of_nat campaigns)), CNum clientSent, CNum clientReplies,
                CStr (num_to_string replyRate @ ''%'')]) (clientSummary data clients) @
        [[CStr []],
         [CStr ''TOP PERFORMING CAMPAIGNS''],
         [CStr ''Campaign Name'', CStr ''Reply Rate %'', CStr ''Sent Count'', CStr ''Client'']] @
        map performer_row (topPerformers data) @
        [[CStr []],
         [CStr ''CAMPAIGNS NEEDING IMPROVEMENT''],
         [CStr ''Campaign Name'', CStr ''Reply Rate %'', CStr ''Sent Count'', CStr ''Client'']] @
        map performer_row (lowPerformers data) @
        [[CStr []],
         [CStr ''ACTIONABLE INSIGHTS''],
         [CStr ''1. Focus on campaigns with low reply rates but high send volumes''],
         [CStr ''2. Analyze top performers for best practices''],
         [CStr ''3. Consider A/B testing subject lines and content''],
         [CStr ''4. Monitor bounce rates for deliverability issues''],
         [CStr ''5. Optimize email sequences based on response patterns''],
         [CStr ''6. Client-specific optimization opportunities identified above'']]))"

definition quick_metric :: "string \<Rightarrow> jsnum \<Rightarrow> string \<Rightarrow> cell list" where
  "quick_metric label avg industry = [CStr label, CStr (toFixed2 avg @ ''%''), CStr industry]"

text \<open>
  \<open>createQuickChartsSheet\<close> sorts \<open>data\<close> in place (no copy), so every later use of
  \<open>data\<close> in the function sees the sorted array.
\<close>

definition createQuickChartsSheet :: "CampaignExportData list \<Rightarrow> ClientData list \<Rightarrow> sheet" where
  "createQuickChartsSheet data0 clients =
     (let data = sort_by by_reply_desc data0 in
      [[CStr ''TOP CAMPAIGNS - REPLY RATE''],
       [CStr ''Campaign Name'', CStr ''Reply Rate %'', CStr ''Sent Count'', CStr ''Client'']] @
      map (\<lambda>c. [CStr (name c), CNum (reply_rate c), CNum (parseInt (sent_count c)),
                 CStr (client_name c)]) (take 10 data) @
      [[CStr []],
       [CStr []],
       [CStr ''CLIENT PERFORMANCE''],
       [CStr ''Client Name'', CStr ''Avg Reply Rate %'', CStr ''Campaign Count'', CStr ''Total Sent'']] @
      List.map_filter (\<lambda>client.
         (let clientCampaigns = filter (\<lambda>c. client_name c = cl_name client) data in
          if length clientCampaigns = 0 then None
          else Some [CStr (cl_name client), CNum (round2 (average reply_rate clientCampaigns)),
                     CNum (js_length clientCampaigns),
                     CNum (sum_count sent_count clientCampaigns)])) clients @
      [[CStr []],
       [CStr []],
       [CStr ''CAMPAIGN DISTRIBUTION BY CLIENT''],
       [CStr ''Client Name'', CStr ''Campaign Count'']] @
      List.map_filter (\<lambda>client.
         (let clientCampaigns = filter (\<lambda>c. client_name c = cl_name client) data in
          if length clientCampaigns > 0
          then Some [CStr (cl_name client), CNum (js_length clientCampaigns)]
          else None)) clients @
      [[CStr []],
       [CStr []],
       [CStr ''PERFORMANCE METRICS''],
       [CStr ''Metric'', CStr ''Current Value'', CStr ''Industry Average''],
       quick_metric ''Open Rate'' (average open_rate data) ''25%'',
       quick_metric ''Click Rate'' (average click_rate data) ''5%'',
       quick_metric ''Reply Rate'' (average reply_rate data) ''2%'',
       quick_metric ''Bounce Rate'' (average bounce_rate data) ''2%''])"

subsection \<open>\<open>generateCampaignExport\<close>\<close>

text \<open>
  The result is \<open>Inr (filename, workbook)\<close> for \<open>{success: true, filename}\<close>, the
  workbook being the one handed to \<open>XLSX.writeFile\<close> under that name, and \<open>Inl message\<close>
  for \<open>{success: false, error: message}\<close>.  The only exception that the function's own
  code can meet is the \<open>RangeError\<close> of date-fns on a creation date it cannot format.
\<close>

definition exportData :: "lib \<Rightarrow> campaign list \<Rightarrow> analytics list \<Rightarrow> ClientData list \<Rightarrow> int \<Rightarrow> int \<Rightarrow> string option \<Rightarrow> CampaignExportData list" where
  "exportData L campaigns analytics clients startDate endDate selectedClientId =
     map (export_row analytics clients)
       (filter (export_filter L startDate endDate selectedClientId) campaigns)"

definition clientStr :: "ClientData list \<Rightarrow> string option \<Rightarrow> string" where
  "clientStr clients selectedClientId =
     (case selectedClientId of
        None \<Rightarrow> ''All Clients''
      | Some s \<Rightarrow>
          if s = [] \<or> s = ''all'' then ''All Clients''
          else (case find (\<lambda>c. Num (of_int (cl_id c)) = parseInt s) clients of
                  Some c \<Rightarrow> or_str (cl_name c) ''Unknown''
                | None \<Rightarrow> ''Unknown''))"

definition export_filename :: "lib \<Rightarrow> ClientData list \<Rightarrow> int \<Rightarrow> int \<Rightarrow> string option \<Rightarrow> string" where
  "export_filename L clients startDate endDate selectedClientId =
     ''Smartlead_Campaigns_'' @ clientStr clients selectedClientId @ ''_'' @
     formatYMD L startDate @ ''_to_'' @ formatYMD L endDate @ ''.xlsx''"

definition generateCampaignExport :: "lib \<Rightarrow> campaign list \<Rightarrow> analytics list \<Rightarrow> ClientData list \<Rightarrow> int \<Rightarrow> int \<Rightarrow> string option \<Rightarrow> string + (string \<times> workbook)" where
  "generateCampaignExport L campaigns analytics clients startDate endDate selectedClientId =
     (let data = exportData L campaigns analytics clients startDate endDate selectedClientId in
      case createDataSheet L data of
        None \<Rightarrow> Inl ''Invalid time value''
      | Some dataSheet \<Rightarrow>
          Inr (export_filename L clients startDate endDate selectedClientId,
               [(''Campaign Data'', dataSheet),
                (''Performance Charts'', createChartsSheet data clients),
                (''Summary & Insights'', createSummarySheet L data clients),
                (''Quick Charts'', createQuickChartsSheet data clients)]))"

section \<open>The rate-limited request gateway (smartlead-api)\<close>

record SmartleadConfig =
  apiKey :: string
  baseUrl :: string

text \<open>
  A queue item holds the endpoint, the time of the call and the \<open>resolve\<close>/\<open>reject\<close>
  pair of the caller's promise; the pair is modelled by the number of the caller.
\<close>

record RequestQueueItem =
  endpoint :: string
  caller :: nat
  timestamp :: int

record SmartleadAPIError =
  err_message :: string
  err_status :: nat
  err_code :: "string option"

text \<open>
  What a caller's promise is rejected with: the error object built by
  \<open>executeRequest\<close>, or an exception thrown by \<open>fetch\<close> or by \<open>response.json()\<close>, which
  \<open>executeRequest\<close> does not catch.
\<close>

datatype rejection = ApiError SmartleadAPIError | Thrown string

text \<open>
  What the transport does with one call: \<open>fetch\<close> rejects (a network failure), or it
  resolves with a response of some status and status text whose body parses as JSON
  to a payload, or does not parse (\<open>None\<close>; \<open>response.json()\<close> then rejects).
\<close>

datatype 'd transport_result =
    NetworkFailure string
  | HttpResponse nat string "'d option"

record 'd SmartleadAPIService =
  config :: SmartleadConfig
  requestQueue :: "RequestQueueItem list"
  isProcessingQueue :: bool
  lastRequestTime :: int
  cache :: "string \<rightharpoonup> ('d \<times> int)"

definition RATE_LIMIT_DELAY :: int where
  "RATE_LIMIT_DELAY = 200"

definition CACHE_DURATION :: int where
  "CACHE_DURATION = 5 * 60 * 1000"

definition new_service :: "SmartleadConfig \<Rightarrow> 'd SmartleadAPIService" where
  "new_service cfg =
     \<lparr>config = cfg, requestQueue = [], isProcessingQueue = False, lastRequestTime = 0,
      cache = Map.empty\<rparr>"

subsection \<open>\<open>executeRequest\<close>\<close>

text \<open>
  The drain loop calls \<open>executeRequest(request.endpoint)\<close> without options, so the
  cache key is the endpoint followed by \<open>-{}\<close>.
\<close>

definition cacheKey :: "string \<Rightarrow> string" where
  "cacheKey ep = ep @ ''-{}''"

text \<open>The first part of \<open>executeRequest\<close>, up to the call of \<open>fetch\<close>, at time \<open>now\<close>.\<close>

definition cache_lookup :: "'d SmartleadAPIService \<Rightarrow> int \<Rightarrow> string \<Rightarrow> 'd option" where
  "cache_lookup svc now ep =
     (case cache svc (cacheKey ep) of
        None \<Rightarrow> None
      | Some (d, stored) \<Rightarrow> if now - stored < CACHE_DURATION then Some d else None)"

definition request_url :: "SmartleadConfig \<Rightarrow> string \<Rightarrow> string" where
  "request_url cfg ep =
     baseUrl cfg @ ep @ (if CHR ''?'' \<in> set ep then ''&'' else ''?'') @ ''api_key='' @ apiKey cfg"

definition response_ok :: "nat \<Rightarrow> bool" where
  "response_ok st = (200 \<le> st \<and> st \<le> 299)"

definition api_error :: "nat \<Rightarrow> string \<Rightarrow> SmartleadAPIError" where
  "api_error st statusText =
     (let error = \<lparr>err_message = ''API Error: '' @ show_nat st @ '' '' @ statusText,
                   err_status = st, err_code = None\<rparr>
      in if st = 401
         then error\<lparr>err_message := ''Invalid API key. Please check your SMARTLEAD_API_KEY.'',
                    err_code := Some ''INVALID_API_KEY''\<rparr>
         else if st = 429
         then error\<lparr>err_message := ''Rate limit exceeded. Please wait before making more requests.'',
                    err_code := Some ''RATE_LIMIT_EXCEEDED''\<rparr>
         else error)"

text \<open>
  The second part of \<open>executeRequest\<close>, from the outcome of \<open>fetch\<close> on, at time
  \<open>now\<close>: the new state and what the function returns (\<open>Inr\<close>) or throws (\<open>Inl\<close>).
\<close>

definition executeRequest_finish ::
  "'d SmartleadAPIService \<Rightarrow> int \<Rightarrow> string \<Rightarrow> 'd transport_result \<Rightarrow>
     'd SmartleadAPIService \<times> (rejection + 'd)" where
  "executeRequest_finish svc now ep res =
     (case res of
        NetworkFailure e \<Rightarrow> (svc, Inl (Thrown e))
      | HttpResponse st statusText body \<Rightarrow>
          if \<not> response_ok st then (svc, Inl (ApiError (api_error st statusText)))
          else (case body of
                  None \<Rightarrow> (svc, Inl (Thrown ''SyntaxError''))
                | Some d \<Rightarrow>
                    (svc\<lparr>cache := (cache svc)(cacheKey ep \<mapsto> (d, now))\<rparr>, Inr d)))"

subsection \<open>\<open>makeRequest\<close> and \<open>processQueue\<close>\<close>

text \<open>
  The drain loop is a coroutine.  Between two of its suspension points it runs without
  interruption; it is suspended in the \<open>setTimeout\<close> of the rate limit (\<open>Sleeping\<close>,
  with the time at which the timer is due) or in the \<open>fetch\<close> of the request it took
  from the queue (\<open>Fetching\<close>), and it does not exist when the queue has run empty
  (\<open>Idle\<close>).
\<close>

datatype loop_state = Idle | Sleeping int | Fetching RequestQueueItem

text \<open>What the gateway does to the outside: calls of the transport and settled promises.\<close>

datatype 'd action =
    Dispatch int string
  | Resolve nat 'd
  | Reject nat rejection

text \<open>
  One run of the loop from its head (\<open>waited = False\<close>) or from the return of the
  timer (\<open>waited = True\<close>) to its next suspension point, at time \<open>now\<close>.  A request
  served from the cache is settled at once and the loop goes on.
\<close>

function drain ::
  "bool \<Rightarrow> 'd SmartleadAPIService \<Rightarrow> int \<Rightarrow> 'd SmartleadAPIService \<times> loop_state \<times> 'd action list" where
  "drain waited svc now =
     (case requestQueue svc of
        [] \<Rightarrow> (svc\<lparr>isProcessingQueue := False\<rparr>, Idle, [])
      | request # rest \<Rightarrow>
          if \<not> waited \<and> now - lastRequestTime svc < RATE_LIMIT_DELAY
          then (svc, Sleeping (now + (RATE_LIMIT_DELAY - (now - lastRequestTime svc))), [])
          else (case cache_lookup svc now (endpoint request) of
                  Some d \<Rightarrow>
                    (case drain False (svc\<lparr>requestQueue := rest, lastRequestTime := now\<rparr>) now of
                       (svc', pc, acts) \<Rightarrow> (svc', pc, Resolve (caller request) d # acts))
                | None \<Rightarrow>
                    (svc\<lparr>requestQueue := rest\<rparr>, Fetching request,
                     [Dispatch now (request_url (config svc) (endpoint request))])))"
  by pat_completeness auto
termination
  by (relation "measure (\<lambda>(waited, svc, now). length (requestQueue svc))") auto

declare drain.simps [simp del]

definition makeRequest ::
  "'d SmartleadAPIService \<Rightarrow> loop_state \<Rightarrow> int \<Rightarrow> string \<Rightarrow> nat \<Rightarrow>
     'd SmartleadAPIService \<times> loop_state \<times> 'd action list" where
  "makeRequest svc pc now ep c =
     (let svc1 = svc\<lparr>requestQueue :=
                   requestQueue svc @ [\<lparr>endpoint = ep, caller = c, timestamp = now\<rparr>]\<rparr>
      in if \<not> isProcessingQueue svc1
         then drain False (svc1\<lparr>isProcessingQueue := True\<rparr>) now
         else (svc1, pc, []))"

text \<open>
  The rest of a loop iteration after \<open>fetch\<close> has settled: the request is resolved or
  rejected with what \<open>executeRequest\<close> returns or throws, \<open>lastRequestTime\<close> is set, and
  the loop goes back to its head.
\<close>

definition transport_done ::
  "'d SmartleadAPIService \<Rightarrow> RequestQueueItem \<Rightarrow> int \<Rightarrow> 'd transport_result \<Rightarrow>
     'd SmartleadAPIService \<times> loop_state \<times> 'd action list" where
  "transport_done svc request now res =
     (case executeRequest_finish svc now (endpoint request) res of
        (svc1, outcome) \<Rightarrow>
          (case drain False (svc1\<lparr>lastRequestTime := now\<rparr>) now of
             (svc', pc, acts) \<Rightarrow>
               (svc', pc,
                (case outcome of
                   Inr result \<Rightarrow> Resolve (caller request) result
                 | Inl error \<Rightarrow> Reject (caller request) error) # acts)))"

subsection \<open>The gateway in time\<close>

text \<open>
  The environment of the gateway: a caller calls \<open>makeRequest\<close>, the timer of the rate
  limit fires, or the transport settles the pending \<open>fetch\<close>.  Every event carries the
  value of \<open>Date.now()\<close> at which it happens.  The clock does not run backwards, a timer
  does not fire before it is due, and the transport only settles a call that is
  pending: an event that breaks this is not possible (\<open>None\<close>).
\<close>

datatype 'd event =
    Call int string nat
  | TimerFires int
  | TransportDone int "'d transport_result"

fun event_time :: "'d event \<Rightarrow> int" where
  "event_time (Call t ep c) = t"
| "event_time (TimerFires t) = t"
| "event_time (TransportDone t res) = t"

record 'd world =
  service :: "'d SmartleadAPIService"
  loop :: loop_state
  clock :: int

definition new_world :: "SmartleadConfig \<Rightarrow> int \<Rightarrow> 'd world" where
  "new_world cfg start = \<lparr>service = new_service cfg, loop = Idle, clock = start\<rparr>"

definition react ::
  "'d world \<Rightarrow> 'd event \<Rightarrow> ('d SmartleadAPIService \<times> loop_state \<times> 'd action list) option" where
  "react w ev =
     (case ev of
        Call t ep c \<Rightarrow> Some (makeRequest (service w) (loop w) t ep c)
      | TimerFires t \<Rightarrow>
          (case loop w of
             Sleeping due \<Rightarrow> if due \<le> t then Some (drain True (service w) t) else None
           | _ \<Rightarrow> None)
      | TransportDone t res \<Rightarrow>
          (case loop w of
             Fetching request \<Rightarrow> Some (transport_done (service w) request t res)
           | _ \<Rightarrow> None))"

definition step :: "'d world \<Rightarrow> 'd event \<Rightarrow> ('d world \<times> 'd action list) option" where
  "step w ev =
     (if event_time ev < clock w then None
      else (case react w ev of
              None \<Rightarrow> None
            | Some (svc', pc, acts) \<Rightarrow>
                Some (\<lparr>service = svc', loop = pc, clock = event_time ev\<rparr>, acts)))"

fun run :: "'d world \<Rightarrow> 'd event list \<Rightarrow> ('d world \<times> 'd action list) option" where
  "run w [] = Some (w, [])"
| "run w (ev # evs) =
     (case step w ev of
        None \<Rightarrow> None
      | Some (w1, acts1) \<Rightarrow>
          (case run w1 evs of
             None \<Rightarrow> None
           | Some (w2, acts2) \<Rightarrow> Some (w2, acts1 @ acts2)))"

fun dispatch_times :: "'d action list \<Rightarrow> int list" where
  "dispatch_times [] = []"
| "dispatch_times (Dispatch t url # acts) = t # dispatch_times acts"
| "dispatch_times (a # acts) = dispatch_times acts"

subsection \<open>The domain API surface\<close>

text \<open>
  Each wrapper hands one endpoint string to \<open>makeRequest\<close>; the string is the identity
  of the request.  The model gives the string.  Offsets, limits and sequence numbers are
  integers; a status filter is one of five words.
\<close>

definition getCampaigns :: "int \<Rightarrow> int \<Rightarrow> string" where
  "getCampaigns offset limit = ''/campaigns''"

definition getCampaignDetails :: "string \<Rightarrow> string" where
  "getCampaignDetails campaignId = ''/campaigns/'' @ campaignId"

definition getCampaignSequences :: "string \<Rightarrow> string" where
  "getCampaignSequences campaignId = ''/campaigns/'' @ campaignId @ ''/sequences''"

definition getEmailAccounts :: "int \<Rightarrow> int \<Rightarrow> string" where
  "getEmailAccounts offset limit =
     ''/email-accounts?offset='' @ show_int offset @ ''&limit='' @ show_int limit"

definition getEmailAccountDetails :: "string \<Rightarrow> string" where
  "getEmailAccountDetails accountId = ''/email-accounts/'' @ accountId"

definition getCampaignEmailAccounts :: "string \<Rightarrow> string" where
  "getCampaignEmailAccounts campaignId = ''/campaigns/'' @ campaignId @ ''/email-accounts''"

definition getClients :: string where
  "getClients = ''/client''"

definition getCampaignLeads :: "string \<Rightarrow> int \<Rightarrow> int \<Rightarrow> string" where
  "getCampaignLeads campaignId offset limit =
     ''/campaigns/'' @ campaignId @ ''/leads?offset='' @ show_int offset @
     ''&limit='' @ show_int limit"

datatype email_status = opened | clicked | replied | unsubscribed | bounced

fun email_status_string :: "email_status \<Rightarrow> string" where
  "email_status_string opened = ''opened''"
| "email_status_string clicked = ''clicked''"
| "email_status_string replied = ''replied''"
| "email_status_string unsubscribed = ''unsubscribed''"
| "email_status_string bounced = ''bounced''"

definition getCampaignStatistics ::
  "string \<Rightarrow> int \<Rightarrow> int \<Rightarrow> int option \<Rightarrow> email_status option \<Rightarrow> string" where
  "getCampaignStatistics campaignId offset limit emailSequenceNumber emailStatus =
     ''/campaigns/'' @ campaignId @ ''/statistics?offset='' @ show_int offset @
     ''&limit='' @ show_int limit @
     (case emailSequenceNumber of
        None \<Rightarrow> []
      | Some n \<Rightarrow> if n = 0 then [] else ''&email_sequence_number='' @ show_int n) @
     (case emailStatus of
        None \<Rightarrow> []
      | Some s \<Rightarrow> ''&email_status='' @ email_status_string s)"

definition getCampaignAnalytics :: "string \<Rightarrow> string" where
  "getCampaignAnalytics campaignId = ''/campaigns/'' @ campaignId @ ''/analytics''"

definition getCampaignMetrics :: "string \<Rightarrow> string" where
  "getCampaignMetrics campaignId = ''/campaigns/'' @ campaignId @ ''/metrics''"

definition getSequencePerformance :: "string \<Rightarrow> string \<Rightarrow> string" where
  "getSequencePerformance campaignId sequenceId =
     ''/campaigns/'' @ campaignId @ ''/sequences/'' @ sequenceId @ ''/performance''"

definition getAccountWarmupDetails :: "string \<Rightarrow> string" where
  "getAccountWarmupDetails accountId = ''/email-accounts/'' @ accountId @ ''/warmup''"

section \<open>The export orchestrator (ExportModal)\<close>

text \<open>
  \<open>handleExport\<close> reads the campaigns and clients held by the page, the two dates and the
  client selection of the dialog.  Its environment is the gateway: \<open>fetch i\<close> is what
  \<open>getCampaignAnalytics\<close> settles with for the \<open>i\<close>-th filtered campaign (\<open>Inr\<close> the
  analytics record, \<open>Inl\<close> the rejection), and \<open>order\<close> lists the indices of the fetches
  in the order in which they settle; a fetch whose index is not in the list never
  settles.  An index is expected at most once in \<open>order\<close>.
\<close>

definition modal_filter :: "lib \<Rightarrow> int \<Rightarrow> int \<Rightarrow> string \<Rightarrow> campaign \<Rightarrow> bool" where
  "modal_filter L startDate endDate exportClientId c =
     (isInDateRange L startDate endDate c \<and>
      (exportClientId = ''all'' \<or> client_id_is (c_client_id c) (parseInt exportClientId)))"

text \<open>\<open>Math.round\<close>: the nearest integer, the larger one on a tie.\<close>

definition js_round :: "rat \<Rightarrow> int" where
  "js_round x = \<lfloor>x + 1 / 2\<rfloor>"

definition fetch_progress :: "nat \<Rightarrow> nat \<Rightarrow> int" where
  \<comment> \<open>\<open>5 + Math.round((index / filteredCampaigns.length) * 80)\<close>\<close>
  "fetch_progress n index = 5 + js_round (of_nat index / of_nat n * 80)"

definition fetched :: "(nat \<Rightarrow> rejection + analytics) \<Rightarrow> nat \<Rightarrow> bool" where
  "fetched fetch i = (case fetch i of Inr a \<Rightarrow> True | Inl e \<Rightarrow> False)"

text \<open>
  What one call of \<open>handleExport\<close> does: the values it passes to \<open>setExportProgress\<close>,
  in order; the titles of its toasts; the outcomes that \<open>Promise.all\<close> collects
  (\<open>None\<close> is the \<open>null\<close> that stands for a failed fetch); the analytics it hands to
  the document builder; and the result of \<open>generateCampaignExport\<close>.  The last three
  are empty when the function returns early or the join never resolves.  The trace of
  the progress ends with the reset in the \<open>finally\<close> block; after a successful export a
  timer resets the progress once more 1.5 seconds later, when the dialog closes.
\<close>

record export_run =
  progress :: "int list"
  toasts :: "string list"
  analyticsResults :: "analytics option list"
  campaignAnalytics :: "analytics list"
  export_result :: "(string + (string \<times> workbook)) option"

definition emoji_party :: string where
  "emoji_party = [CHR 0xF0, CHR 0x9F, CHR 0x8E, CHR 0x89]"

definition handleExport ::
  "lib \<Rightarrow> campaign list \<Rightarrow> ClientData list \<Rightarrow> int option \<Rightarrow> int option \<Rightarrow> string \<Rightarrow>
     (nat \<Rightarrow> rejection + analytics) \<Rightarrow> nat list \<Rightarrow> export_run" where
  "handleExport L campaigns clients startDate endDate exportClientId fetch order =
     (case (startDate, endDate) of
        (Some s, Some e) \<Rightarrow>
          if e < s
          then \<lparr>progress = [], toasts = [''Invalid Date Range''], analyticsResults = [],
                campaignAnalytics = [], export_result = None\<rparr>
          else
            (let filteredCampaigns = filter (modal_filter L s e exportClientId) campaigns;
                 n = length filteredCampaigns;
                 settled = filter (\<lambda>i. i < n) order;
                 steps = map (fetch_progress n) (filter (fetched fetch) settled)
             in if \<not> list_all (\<lambda>i. i \<in> set order) [0..<n]
                then \<lparr>progress = [0, 5] @ steps, toasts = [''Starting Export''],
                      analyticsResults = [], campaignAnalytics = [], export_result = None\<rparr>
                else
                  (let results = map (\<lambda>i. case fetch i of Inr a \<Rightarrow> Some a | Inl err \<Rightarrow> None) [0..<n];
                       found = List.map_filter (\<lambda>r. r) results;
                       result = generateCampaignExport L filteredCampaigns found clients s e
                                  (if exportClientId = ''all'' then None else Some exportClientId)
                   in \<lparr>progress = [0, 5] @ steps @ [85, 100] @ [0],
                       toasts = [''Starting Export'',
                                 (case result of
                                    Inr ok \<Rightarrow> ''Export Successful! '' @ emoji_party
                                  | Inl err \<Rightarrow> ''Export Failed'')],
                       analyticsResults = results, campaignAnalytics = found,
                       export_result = Some result\<rparr>))
      | _ \<Rightarrow> \<lparr>progress = [], toasts = [''Date Range Required''], analyticsResults = [],
                campaignAnalytics = [], export_result = None\<rparr>)"

section \<open>Definitions used to state the properties\<close>


text \<open>
  The order in which the ascending comparator \<open>a.reply_rate - b.reply_rate\<close> leaves two
  rows: \<open>b\<close> does not have the smaller reply rate.
\<close>

definition reply_le :: "CampaignExportData \<Rightarrow> CampaignExportData \<Rightarrow> bool" where
  "reply_le a b = (\<not> js_lt (reply_rate b) (reply_rate a))"

text \<open>
  The bottom performers as the specification words them: the five lowest reply rates
  among the campaigns with more than 10 sends, with no other condition.
\<close>

definition spec_bottom_performers :: "CampaignExportData list \<Rightarrow> CampaignExportData list" where
  "spec_bottom_performers data =
     take 5 (sort_by by_reply_asc (filter (\<lambda>c. js_gt (parseInt (sent_count c)) (Num 10)) data))"

text \<open>The average rows of the two chart sheets when no campaign is exported.\<close>

definition nan_chart_rows :: sheet where
  "nan_chart_rows =
     [[CStr ''Open Rate'', CNum NaN, CNum (Num 25)],
      [CStr ''Click Rate'', CNum NaN, CNum (Num 5)],
      [CStr ''Reply Rate'', CNum NaN, CNum (Num 2)],
      [CStr ''Bounce Rate'', CNum NaN, CNum (Num 2)]]"

definition nan_quick_rows :: sheet where
  "nan_quick_rows =
     [[CStr ''Open Rate'', CStr ''NaN%'', CStr ''25%''],
      [CStr ''Click Rate'', CStr ''NaN%'', CStr ''5%''],
      [CStr ''Reply Rate'', CStr ''NaN%'', CStr ''2%''],
      [CStr ''Bounce Rate'', CStr ''NaN%'', CStr ''2%'']]"

subsection \<open>The error taxonomy of the specification\<close>

text \<open>
  The specification names four kinds of upstream error.  The code has no such field: an
  error object carries a \<open>code\<close> for two of the kinds, only its status for a third,
  and an exception of the transport is passed on as it is.  \<open>kind_of\<close> reads the kind
  off what the caller receives.
\<close>

datatype error_kind = AuthInvalid | RateLimited | ServerError nat | Unknown

definition kind_of :: "rejection \<Rightarrow> error_kind" where
  "kind_of r =
     (case r of
        Thrown e \<Rightarrow> Unknown
      | ApiError e \<Rightarrow>
          if err_code e = Some ''INVALID_API_KEY'' then AuthInvalid
          else if err_code e = Some ''RATE_LIMIT_EXCEEDED'' then RateLimited
          else ServerError (err_status e))"

subsection \<open>The invariant of the drain loop\<close>

definition is_fetching :: "loop_state \<Rightarrow> bool" where
  "is_fetching pc = (case pc of Fetching r \<Rightarrow> True | _ \<Rightarrow> False)"

text \<open>
  What holds of a reachable gateway and the times \<open>ts\<close> of the transport calls made so
  far: the calls are spaced by the rate limit, none lies in the future, all lie before
  \<open>lastRequestTime\<close> unless a call is pending, a sleeping loop wakes up no earlier
  than the rate limit after \<open>lastRequestTime\<close>, and the flag \<open>isProcessingQueue\<close> tells
  whether the loop exists.
\<close>

definition gw_inv :: "'d world \<Rightarrow> int list \<Rightarrow> bool" where
  "gw_inv w ts =
     (successively (\<lambda>a b. a + RATE_LIMIT_DELAY \<le> b) ts \<and>
      (\<forall>d\<in>set ts. d \<le> clock w) \<and>
      (\<not> is_fetching (loop w) \<longrightarrow> (\<forall>d\<in>set ts. d \<le> lastRequestTime (service w))) \<and>
      (\<forall>due. loop w = Sleeping due \<longrightarrow> lastRequestTime (service w) + RATE_LIMIT_DELAY \<le> due) \<and>
      (isProcessingQueue (service w) = (loop w \<noteq> Idle)))"

subsection \<open>The order of settlement\<close>

text \<open>
  The callers that a list of actions settles, the callers of a list of events, and the
  callers who wait: the one whose request is with the transport, then those in the queue.
\<close>

fun settled_callers :: "'d action list \<Rightarrow> nat list" where
  "settled_callers [] = []"
| "settled_callers (Resolve c d # acts) = c # settled_callers acts"
| "settled_callers (Reject c err # acts) = c # settled_callers acts"
| "settled_callers (Dispatch t url # acts) = settled_callers acts"

fun callers :: "'d event list \<Rightarrow> nat list" where
  "callers [] = []"
| "callers (Call t ep c # evs) = c # callers evs"
| "callers (ev # evs) = callers evs"

definition pending :: "'d SmartleadAPIService \<Rightarrow> loop_state \<Rightarrow> nat list" where
  "pending svc pc =
     (case pc of Fetching request \<Rightarrow> [caller request] | _ \<Rightarrow> []) @ map caller (requestQueue svc)"

subsection \<open>Concrete inputs\<close>

text \<open>
  A library instance that knows three creation dates (5 January, 10 February and
  1 March 2024, as UTC milliseconds) and formats them as date-fns does.
\<close>

definition demo_lib :: lib where
  "demo_lib =
     \<lparr>newDate = (\<lambda>s. if s = ''2024-01-05'' then Some 1704412800000
                     else if s = ''2024-02-10'' then Some 1707523200000
                     else if s = ''2024-03-01'' then Some 1709251200000 else None),
      formatCreated = (\<lambda>s. if s = ''2024-01-05'' then Some ''Jan 05, 2024''
                     else if s = ''2024-02-10'' then Some ''Feb 10, 2024''
                     else if s = ''2024-03-01'' then Some ''Mar 01, 2024'' else None),
      formatYMD = (\<lambda>d. if d = 1704067200000 then ''2024-01-01''
                     else if d = 1709078400000 then ''2024-02-28'' else ''2024-03-31''),
      nowLocale = ''4/1/2024, 9:00:00 AM''\<rparr>"

definition demo_config :: SmartleadConfig where
  "demo_config = \<lparr>apiKey = ''KEY'', baseUrl = ''https://server.smartlead.ai/api/v1''\<rparr>"

definition demo_ok :: "string \<Rightarrow> string transport_result" where
  "demo_ok payload = HttpResponse 200 ''OK'' (Some payload)"

text \<open>A gateway that stored the campaign list at time 1000100 and is idle since.\<close>

definition demo_cached :: "string SmartleadAPIService" where
  "demo_cached =
     (new_service demo_config)
       \<lparr>lastRequestTime := 1000100,
        cache := [cacheKey ''/campaigns'' \<mapsto> (''payload'', 1000100)]\<rparr>"

text \<open>The same gateway with one queued request for the campaign list.\<close>

definition demo_queued :: "string SmartleadAPIService" where
  "demo_queued =
     demo_cached\<lparr>requestQueue := [\<lparr>endpoint = ''/campaigns'', caller = 2, timestamp = 1000150\<rparr>],
                 isProcessingQueue := True\<rparr>"

definition demo_campaign :: "int \<Rightarrow> string \<Rightarrow> string \<Rightarrow> campaign" where
  "demo_campaign i nm created =
     \<lparr>c_id = i, c_name = nm, c_status = ''ACTIVE'', c_created_at = created, c_client_id = None\<rparr>"

definition demo_analytics :: "int \<Rightarrow> string \<Rightarrow> string \<Rightarrow> string \<Rightarrow> analytics" where
  "demo_analytics i sent opens replies =
     \<lparr>a_id = i, a_sent_count = sent, a_open_count = opens, a_click_count = ''0'',
      a_reply_count = replies, a_bounce_count = ''0'', a_sequence_count = ''3'',
      a_lead_total = Some 40\<rparr>"

definition demo_row :: "string \<Rightarrow> string \<Rightarrow> jsnum \<Rightarrow> CampaignExportData" where
  "demo_row nm sent rr =
     \<lparr>ex_id = 1, name = nm, status = ''ACTIVE'', created_at = ''2024-01-05'',
      client_name = ''No Client'', sent_count = sent, open_count = ''0'', click_count = ''0'',
      reply_count = ''0'', bounce_count = ''0'', sequence_count = ''0'', total_leads = 0,
      open_rate = Num 0, click_rate = Num 0, reply_rate = rr, bounce_rate = Num 0\<rparr>"

text \<open>
  Three campaigns created on the three dates; the analytics of the second one cannot be
  fetched.
\<close>

definition demo_campaigns :: "campaign list" where
  "demo_campaigns =
     [demo_campaign 1 ''A'' ''2024-01-05'', demo_campaign 2 ''B'' ''2024-02-10'',
      demo_campaign 3 ''C'' ''2024-03-01'']"

definition demo_fetch :: "nat \<Rightarrow> rejection + analytics" where
  "demo_fetch i =
     (if i = 0 then Inr (demo_analytics 1 ''100'' ''25'' ''5'')
      else if i = 1 then Inl (ApiError (api_error 500 ''Internal Server Error''))
      else Inr (demo_analytics 3 ''40'' ''10'' ''0''))"

section \<open>Properties of the gateway\<close>

subsection \<open>The drain loop\<close>

lemma dispatch_times_append:
  "dispatch_times (xs @ ys) = dispatch_times xs @ dispatch_times ys"
  by (induction xs rule: dispatch_times.induct) simp_all

lemma drain_Nil:
  "requestQueue svc = [] \<Longrightarrow> drain waited svc now = (svc\<lparr>isProcessingQueue := False\<rparr>, Idle, [])"
  by (subst drain.simps) simp

lemma drain_sleep:
  "requestQueue svc = request # rest \<Longrightarrow> \<not> waited \<Longrightarrow>
   now - lastRequestTime svc < RATE_LIMIT_DELAY \<Longrightarrow>
   drain waited svc now =
     (svc, Sleeping (now + (RATE_LIMIT_DELAY - (now - lastRequestTime svc))), [])"
  by (subst drain.simps) simp

lemma drain_miss:
  "requestQueue svc = request # rest \<Longrightarrow>
   waited \<or> \<not> now - lastRequestTime svc < RATE_LIMIT_DELAY \<Longrightarrow>
   cache_lookup svc now (endpoint request) = None \<Longrightarrow>
   drain waited svc now =
     (svc\<lparr>requestQueue := rest\<rparr>, Fetching request,
      [Dispatch now (request_url (config svc) (endpoint request))])"
  by (subst drain.simps) auto

lemma drain_hit:
  "requestQueue svc = request # rest \<Longrightarrow>
   waited \<or> \<not> now - lastRequestTime svc < RATE_LIMIT_DELAY \<Longrightarrow>
   cache_lookup svc now (endpoint request) = Some d \<Longrightarrow>
   drain False (svc\<lparr>requestQueue := rest, lastRequestTime := now\<rparr>) now = (s1, p1, a1) \<Longrightarrow>
   drain waited svc now = (s1, p1, Resolve (caller request) d # a1)"
  by (subst drain.simps) auto

lemma drain_shape:
  assumes "drain waited svc now = (svc', pc, acts)"
    and "waited \<longrightarrow> lastRequestTime svc + RATE_LIMIT_DELAY \<le> now"
  shows "(if is_fetching pc
          then dispatch_times acts = [now] \<and> lastRequestTime svc + RATE_LIMIT_DELAY \<le> now
          else dispatch_times acts = [] \<and>
               (lastRequestTime svc' = lastRequestTime svc \<or> lastRequestTime svc' = now)) \<and>
         (\<forall>due. pc = Sleeping due \<longrightarrow> lastRequestTime svc' + RATE_LIMIT_DELAY \<le> due) \<and>
         (isProcessingQueue svc \<longrightarrow> isProcessingQueue svc' = (pc \<noteq> Idle))"
  using assms
proof (induction waited svc now arbitrary: svc' pc acts rule: drain.induct)
  case (1 waited svc now)
  show ?case
  proof (cases "requestQueue svc")
    case Nil
    from drain_Nil [OF Nil, of waited now] "1.prems"(1) show ?thesis
      by (auto simp add: is_fetching_def)
  next
    case (Cons request rest)
    show ?thesis
    proof (cases "\<not> waited \<and> now - lastRequestTime svc < RATE_LIMIT_DELAY")
      case True
      with drain_sleep [OF Cons, of waited now] "1.prems"(1) show ?thesis
        by (auto simp add: is_fetching_def)
    next
      case wait_over: False
      then have late: "lastRequestTime svc + RATE_LIMIT_DELAY \<le> now"
        using "1.prems"(2) by auto
      show ?thesis
      proof (cases "cache_lookup svc now (endpoint request)")
        case None
        from wait_over have w: "waited \<or> \<not> now - lastRequestTime svc < RATE_LIMIT_DELAY" by blast
        from drain_miss [OF Cons w None] "1.prems"(1) late show ?thesis
          by (auto simp add: is_fetching_def)
      next
        case (Some d)
        obtain s1 p1 a1 where rec:
          "drain False (svc\<lparr>requestQueue := rest, lastRequestTime := now\<rparr>) now = (s1, p1, a1)"
          by (metis prod_cases3)
        from wait_over have w: "waited \<or> \<not> now - lastRequestTime svc < RATE_LIMIT_DELAY" by blast
        have res: "svc' = s1" "pc = p1" "acts = Resolve (caller request) d # a1"
          using drain_hit [OF Cons w Some rec] "1.prems"(1) by simp_all
        have ih: "(if is_fetching p1
          then dispatch_times a1 = [now] \<and> now + RATE_LIMIT_DELAY \<le> now
          else dispatch_times a1 = [] \<and>
               (lastRequestTime s1 = now \<or> lastRequestTime s1 = now)) \<and>
         (\<forall>due. p1 = Sleeping due \<longrightarrow> lastRequestTime s1 + RATE_LIMIT_DELAY \<le> due) \<and>
         (isProcessingQueue svc \<longrightarrow> isProcessingQueue s1 = (p1 \<noteq> Idle))"
          using "1.IH" [OF Cons wait_over Some rec] by (auto split: if_splits)
        then have "\<not> is_fetching p1"
          by (auto simp add: RATE_LIMIT_DELAY_def split: if_splits)
        with ih res show ?thesis by auto
      qed
    qed
  qed
qed

lemma drain_at_once:
  "drain False (svc\<lparr>lastRequestTime := now\<rparr>) now =
     (if requestQueue svc = []
      then (svc\<lparr>lastRequestTime := now, isProcessingQueue := False\<rparr>, Idle, [])
      else (svc\<lparr>lastRequestTime := now\<rparr>, Sleeping (now + RATE_LIMIT_DELAY), []))"
proof (cases "requestQueue svc")
  case Nil
  then show ?thesis by (simp add: drain_Nil)
next
  case (Cons request rest)
  then have "requestQueue (svc\<lparr>lastRequestTime := now\<rparr>) = request # rest" by simp
  from drain_sleep [OF this, of False now] Cons show ?thesis
    by (simp add: RATE_LIMIT_DELAY_def)
qed

lemma drain_cache_hit:
  assumes q: "requestQueue svc = request # rest"
    and w: "waited \<or> \<not> now - lastRequestTime svc < RATE_LIMIT_DELAY"
    and hit: "cache_lookup svc now (endpoint request) = Some d"
  shows "drain waited svc now =
     (if rest = []
      then (svc\<lparr>requestQueue := rest, lastRequestTime := now, isProcessingQueue := False\<rparr>,
            Idle, [Resolve (caller request) d])
      else (svc\<lparr>requestQueue := rest, lastRequestTime := now\<rparr>,
            Sleeping (now + RATE_LIMIT_DELAY), [Resolve (caller request) d]))"
proof -
  have "drain False (svc\<lparr>requestQueue := rest, lastRequestTime := now\<rparr>) now =
     (if rest = []
      then (svc\<lparr>requestQueue := rest, lastRequestTime := now, isProcessingQueue := False\<rparr>, Idle, [])
      else (svc\<lparr>requestQueue := rest, lastRequestTime := now\<rparr>, Sleeping (now + RATE_LIMIT_DELAY), []))"
    using drain_at_once [where svc = "svc\<lparr>requestQueue := rest\<rparr>" and now = now] by simp
  then show ?thesis
    using drain_hit [OF q w hit] by (simp split: if_splits)
qed

lemma cache_lookup_queue [simp]:
  "cache_lookup (svc\<lparr>requestQueue := q\<rparr>) now ep = cache_lookup svc now ep"
  "cache_lookup (svc\<lparr>isProcessingQueue := b\<rparr>) now ep = cache_lookup svc now ep"
  "cache_lookup (svc\<lparr>lastRequestTime := t\<rparr>) now ep = cache_lookup svc now ep"
  by (simp_all add: cache_lookup_def)

subsection \<open>A request whose answer is cached\<close>

text \<open>
  Claim C1, as the specification states it, fails.  The campaign list is fetched and
  stored at time 1000100.  A second request for it 50 ms later finds a cache entry that
  is 50 ms old, yet it is not resolved: it is appended to the queue, the drain loop is
  started and sleeps until time 1000300.
\<close>

theorem cached_request_counterexample:
  "(case run (new_world demo_config 1000000)
          [Call 1000000 ''/campaigns'' 1, TransportDone 1000100 (demo_ok ''payload'')] of
      None \<Rightarrow> False
    | Some (w1, acts1) \<Rightarrow>
        cache_lookup (service w1) 1000150 ''/campaigns'' = Some ''payload'' \<and>
        requestQueue (service w1) = [] \<and>
        (case step w1 (Call 1000150 ''/campaigns'' 2) of
           None \<Rightarrow> False
         | Some (w2, acts2) \<Rightarrow>
             acts2 = [] \<and>
             requestQueue (service w2) =
               [\<lparr>endpoint = ''/campaigns'', caller = 2, timestamp = 1000150\<rparr>] \<and>
             isProcessingQueue (service w2) \<and>
             loop w2 = Sleeping 1000300))"
  by code_simp

text \<open>
  Claim C1, amended.  \<open>makeRequest\<close> never looks at the cache: every call appends the
  request to the queue and starts the drain loop if it is not running.  For an identity
  with a cache entry younger than the TTL this means: while the loop runs, the request
  only joins the queue; on an idle gateway it waits for the rest of the rate-limit
  delay if the last request ended less than 200 ms ago, and otherwise is taken from the
  queue at once and resolved with the cached payload.  Whenever the loop takes such a
  request from the queue, it resolves it with the cached payload, makes no transport
  call and leaves the cache as it is.
\<close>

theorem cached_request_is_queued:
  assumes fresh: "cache_lookup svc now ep = Some d"
  shows
    "(isProcessingQueue svc \<longrightarrow>
        makeRequest svc pc now ep c =
          (svc\<lparr>requestQueue := requestQueue svc @ [\<lparr>endpoint = ep, caller = c, timestamp = now\<rparr>]\<rparr>,
           pc, [])) \<and>
     (\<not> isProcessingQueue svc \<and> requestQueue svc = [] \<and>
      now - lastRequestTime svc < RATE_LIMIT_DELAY \<longrightarrow>
        makeRequest svc pc now ep c =
          (svc\<lparr>requestQueue := [\<lparr>endpoint = ep, caller = c, timestamp = now\<rparr>],
                isProcessingQueue := True\<rparr>,
           Sleeping (lastRequestTime svc + RATE_LIMIT_DELAY), [])) \<and>
     (\<not> isProcessingQueue svc \<and> requestQueue svc = [] \<and>
      RATE_LIMIT_DELAY \<le> now - lastRequestTime svc \<longrightarrow>
        makeRequest svc pc now ep c =
          (svc\<lparr>requestQueue := [], isProcessingQueue := False, lastRequestTime := now\<rparr>,
           Idle, [Resolve c d])) \<and>
     (requestQueue svc = request # rest \<and> endpoint request = ep \<longrightarrow>
        snd (snd (drain True svc now)) = [Resolve (caller request) d] \<and>
        cache (fst (drain True svc now)) = cache svc \<and>
        requestQueue (fst (drain True svc now)) = rest)"
proof (intro conjI impI)
  assume "isProcessingQueue svc"
  then show "makeRequest svc pc now ep c =
          (svc\<lparr>requestQueue := requestQueue svc @ [\<lparr>endpoint = ep, caller = c, timestamp = now\<rparr>]\<rparr>,
           pc, [])"
    by (simp add: makeRequest_def)
next
  let ?item = "\<lparr>endpoint = ep, caller = c, timestamp = now\<rparr>"
  let ?svc1 = "svc\<lparr>requestQueue := requestQueue svc @ [?item], isProcessingQueue := True\<rparr>"
  assume a: "\<not> isProcessingQueue svc \<and> requestQueue svc = [] \<and>
      now - lastRequestTime svc < RATE_LIMIT_DELAY"
  then have q: "requestQueue ?svc1 = ?item # []" by simp
  from a have "now - lastRequestTime ?svc1 < RATE_LIMIT_DELAY" by simp
  from drain_sleep [OF q _ this, of False] a
  show "makeRequest svc pc now ep c =
          (svc\<lparr>requestQueue := [?item], isProcessingQueue := True\<rparr>,
           Sleeping (lastRequestTime svc + RATE_LIMIT_DELAY), [])"
    by (simp add: makeRequest_def Let_def)
next
  let ?item = "\<lparr>endpoint = ep, caller = c, timestamp = now\<rparr>"
  let ?svc1 = "svc\<lparr>requestQueue := requestQueue svc @ [?item], isProcessingQueue := True\<rparr>"
  assume a: "\<not> isProcessingQueue svc \<and> requestQueue svc = [] \<and>
      RATE_LIMIT_DELAY \<le> now - lastRequestTime svc"
  then have q: "requestQueue ?svc1 = ?item # []" by simp
  from a have w: "False \<or> \<not> now - lastRequestTime ?svc1 < RATE_LIMIT_DELAY" by simp
  from fresh have hit: "cache_lookup ?svc1 now (endpoint ?item) = Some d" by simp
  from drain_cache_hit [OF q w hit] a
  show "makeRequest svc pc now ep c =
          (svc\<lparr>requestQueue := [], isProcessingQueue := False, lastRequestTime := now\<rparr>,
           Idle, [Resolve c d])"
    by (simp add: makeRequest_def Let_def)
next
  assume a: "requestQueue svc = request # rest \<and> endpoint request = ep"
  then have q: "requestQueue svc = request # rest" by simp
  from a fresh have hit: "cache_lookup svc now (endpoint request) = Some d" by simp
  note h = drain_cache_hit [OF q _ hit, of True]
  from h show "snd (snd (drain True svc now)) = [Resolve (caller request) d]" by simp
  from h show "cache (fst (drain True svc now)) = cache svc" by simp
  from h show "requestQueue (fst (drain True svc now)) = rest" by simp
qed

lemma demo_cached_fresh: "cache_lookup demo_cached 1000150 ''/campaigns'' = Some ''payload''"
  by (simp add: demo_cached_def cache_lookup_def CACHE_DURATION_def new_service_def)

theorem cached_request_is_queued_witness:
  "makeRequest demo_cached Idle 1000150 ''/campaigns'' 2 =
     (demo_cached\<lparr>requestQueue := [\<lparr>endpoint = ''/campaigns'', caller = 2, timestamp = 1000150\<rparr>],
                  isProcessingQueue := True\<rparr>,
      Sleeping 1000300, [])"
  using cached_request_is_queued [OF demo_cached_fresh, of Idle 2]
  by (simp add: demo_cached_def new_service_def RATE_LIMIT_DELAY_def)

subsection \<open>Error classification\<close>

lemma transport_done_failure:
  assumes "executeRequest_finish svc now (endpoint request) res = (svc, Inl err)"
  shows "snd (snd (transport_done svc request now res)) = [Reject (caller request) err]"
  using assms by (simp add: transport_done_def drain_at_once)

text \<open>
  Claim C3.  When the upstream call of a request fails, the caller's promise is rejected
  once, with the error that \<open>executeRequest\<close> built, and nothing else is done to it:
  status 401 gives the error with code \<open>INVALID_API_KEY\<close> whose message asks to check
  the API key (AuthInvalid), status 429 the error with code \<open>RATE_LIMIT_EXCEEDED\<close>
  (RateLimited), any other status outside 200..299 an error without code that carries
  the status, also in its message (ServerError), and a failure of the transport itself
  the exception of \<open>fetch\<close> (Unknown).
\<close>

theorem error_classification:
  "snd (snd (transport_done svc request now (HttpResponse 401 statusText body))) =
     [Reject (caller request)
        (ApiError \<lparr>err_message = ''Invalid API key. Please check your SMARTLEAD_API_KEY.'',
                   err_status = 401, err_code = Some ''INVALID_API_KEY''\<rparr>)] \<and>
   snd (snd (transport_done svc request now (HttpResponse 429 statusText body))) =
     [Reject (caller request)
        (ApiError \<lparr>err_message = ''Rate limit exceeded. Please wait before making more requests.'',
                   err_status = 429, err_code = Some ''RATE_LIMIT_EXCEEDED''\<rparr>)] \<and>
   (\<not> response_ok st \<and> st \<noteq> 401 \<and> st \<noteq> 429 \<longrightarrow>
      snd (snd (transport_done svc request now (HttpResponse st statusText body))) =
        [Reject (caller request)
           (ApiError \<lparr>err_message = ''API Error: '' @ show_nat st @ '' '' @ statusText,
                      err_status = st, err_code = None\<rparr>)]) \<and>
   snd (snd (transport_done svc request now (NetworkFailure e))) =
     [Reject (caller request) (Thrown e)] \<and>
   kind_of (ApiError \<lparr>err_message = ''Invalid API key. Please check your SMARTLEAD_API_KEY.'',
                   err_status = 401, err_code = Some ''INVALID_API_KEY''\<rparr>) = AuthInvalid \<and>
   kind_of (ApiError \<lparr>err_message = ''Rate limit exceeded. Please wait before making more requests.'',
                   err_status = 429, err_code = Some ''RATE_LIMIT_EXCEEDED''\<rparr>) = RateLimited \<and>
   kind_of (ApiError \<lparr>err_message = ''API Error: '' @ show_nat st @ '' '' @ statusText,
                      err_status = st, err_code = None\<rparr>) = ServerError st \<and>
   kind_of (Thrown e) = Unknown"
proof -
  have a: "snd (snd (transport_done svc request now (HttpResponse 401 statusText body))) =
     [Reject (caller request)
        (ApiError \<lparr>err_message = ''Invalid API key. Please check your SMARTLEAD_API_KEY.'',
                   err_status = 401, err_code = Some ''INVALID_API_KEY''\<rparr>)]"
    by (rule transport_done_failure)
       (simp add: executeRequest_finish_def response_ok_def api_error_def)
  have b: "snd (snd (transport_done svc request now (HttpResponse 429 statusText body))) =
     [Reject (caller request)
        (ApiError \<lparr>err_message = ''Rate limit exceeded. Please wait before making more requests.'',
                   err_status = 429, err_code = Some ''RATE_LIMIT_EXCEEDED''\<rparr>)]"
    by (rule transport_done_failure)
       (simp add: executeRequest_finish_def response_ok_def api_error_def)
  have c: "\<not> response_ok st \<and> st \<noteq> 401 \<and> st \<noteq> 429 \<longrightarrow>
      snd (snd (transport_done svc request now (HttpResponse st statusText body))) =
        [Reject (caller request)
           (ApiError \<lparr>err_message = ''API Error: '' @ show_nat st @ '' '' @ statusText,
                      err_status = st, err_code = None\<rparr>)]"
  proof
    assume "\<not> response_ok st \<and> st \<noteq> 401 \<and> st \<noteq> 429"
    then show "snd (snd (transport_done svc request now (HttpResponse st statusText body))) =
        [Reject (caller request)
           (ApiError \<lparr>err_message = ''API Error: '' @ show_nat st @ '' '' @ statusText,
                      err_status = st, err_code = None\<rparr>)]"
      by (intro transport_done_failure)
         (simp add: executeRequest_finish_def api_error_def)
  qed
  have d: "snd (snd (transport_done svc request now (NetworkFailure e))) =
     [Reject (caller request) (Thrown e)]"
    by (rule transport_done_failure) (simp add: executeRequest_finish_def)
  from a b c d show ?thesis by (simp add: kind_of_def)
qed

lemma show_503: "show_nat 503 = ''503''"
  by code_simp

theorem error_classification_witness:
  "snd (snd (transport_done (new_service demo_config :: string SmartleadAPIService)
       \<lparr>endpoint = ''/campaigns'', caller = 4, timestamp = 1000000\<rparr> 1000100
       (HttpResponse 503 ''Service Unavailable'' None))) =
     [Reject 4 (ApiError \<lparr>err_message = ''API Error: 503 Service Unavailable'',
                          err_status = 503, err_code = None\<rparr>)]"
  using error_classification [where st = 503 and statusText = "''Service Unavailable''"
      and body = None and svc = "new_service demo_config :: string SmartleadAPIService"
      and request = "\<lparr>endpoint = ''/campaigns'', caller = 4, timestamp = 1000000\<rparr>"
      and now = 1000100]
  by (simp add: response_ok_def show_503)

subsection \<open>Rate limiting\<close>

lemma spaced_snoc:
  assumes "successively (\<lambda>a b. a + RATE_LIMIT_DELAY \<le> b) ts"
    and "\<forall>d\<in>set ts. d + RATE_LIMIT_DELAY \<le> t"
  shows "successively (\<lambda>a b. a + RATE_LIMIT_DELAY \<le> b) (ts @ [t])"
  using assms by (cases "ts = []") (simp_all add: successively_append_iff)

lemma gw_inv_after_drain:
  assumes inv: "gw_inv w ts"
    and dr: "drain waited svc now = (svc', pc, acts)"
    and pre: "waited \<longrightarrow> lastRequestTime svc + RATE_LIMIT_DELAY \<le> now"
    and time: "clock w \<le> now"
    and before: "\<forall>d\<in>set ts. d \<le> lastRequestTime svc"
    and busy: "isProcessingQueue svc"
  shows "gw_inv \<lparr>service = svc', loop = pc, clock = now\<rparr> (ts @ dispatch_times acts)"
proof -
  note shape = drain_shape [OF dr pre]
  show ?thesis
  proof (cases "is_fetching pc")
    case True
    with shape have d: "dispatch_times acts = [now]"
      and late: "lastRequestTime svc + RATE_LIMIT_DELAY \<le> now" by simp_all
    have "\<forall>d\<in>set ts. d + RATE_LIMIT_DELAY \<le> now" using before late by fastforce
    with inv have "successively (\<lambda>a b. a + RATE_LIMIT_DELAY \<le> b) (ts @ [now])"
      by (simp add: gw_inv_def spaced_snoc)
    moreover have "\<forall>d\<in>set ts. d \<le> now" using inv time by (fastforce simp add: gw_inv_def)
    ultimately show ?thesis using True shape busy d
      by (auto simp add: gw_inv_def is_fetching_def)
  next
    case False
    with shape have d: "dispatch_times acts = []"
      and l: "lastRequestTime svc' = lastRequestTime svc \<or> lastRequestTime svc' = now" by simp_all
    have le_now: "\<forall>d\<in>set ts. d \<le> now" using inv time by (fastforce simp add: gw_inv_def)
    then have "\<forall>d\<in>set ts. d \<le> lastRequestTime svc'" using before l by auto
    with inv le_now False shape busy d show ?thesis
      by (auto simp add: gw_inv_def)
  qed
qed


lemma step_preserves:
  assumes inv: "gw_inv w ts" and st: "step w ev = Some (w', acts)"
  shows "gw_inv w' (ts @ dispatch_times acts)"
proof -
  from st have time: "clock w \<le> event_time ev"
    by (simp add: step_def split: if_splits)
  from st obtain svc' pc where r: "react w ev = Some (svc', pc, acts)"
    and w': "w' = \<lparr>service = svc', loop = pc, clock = event_time ev\<rparr>"
    by (auto simp add: step_def split: if_splits option.splits)
  show ?thesis
  proof (cases ev)
    case (Call t ep c)
    with r have mk: "makeRequest (service w) (loop w) t ep c = (svc', pc, acts)"
      by (simp add: react_def)
    let ?svc1 = "(service w)\<lparr>requestQueue :=
                   requestQueue (service w) @ [\<lparr>endpoint = ep, caller = c, timestamp = t\<rparr>]\<rparr>"
    show ?thesis
    proof (cases "isProcessingQueue (service w)")
      case True
      with mk have "svc' = ?svc1" "pc = loop w" "acts = []"
        by (simp_all add: makeRequest_def Let_def)
      with inv time w' Call show ?thesis
        by (fastforce simp add: gw_inv_def)
    next
      case False
      with mk have dr: "drain False (?svc1\<lparr>isProcessingQueue := True\<rparr>) t = (svc', pc, acts)"
        by (simp add: makeRequest_def Let_def)
      from False inv have idle: "loop w = Idle" by (simp add: gw_inv_def)
      then have "\<forall>d\<in>set ts. d \<le> lastRequestTime (?svc1\<lparr>isProcessingQueue := True\<rparr>)"
        using inv by (simp add: gw_inv_def is_fetching_def)
      from gw_inv_after_drain [OF inv dr _ _ this] time Call w' show ?thesis by simp
    qed
  next
    case (TimerFires t)
    with r obtain due where sl: "loop w = Sleeping due" and due: "due \<le> t"
      and dr: "drain True (service w) t = (svc', pc, acts)"
      by (auto simp add: react_def split: loop_state.splits if_splits)
    from inv sl due have pre: "True \<longrightarrow> lastRequestTime (service w) + RATE_LIMIT_DELAY \<le> t"
      by (fastforce simp add: gw_inv_def)
    from inv sl have before: "\<forall>d\<in>set ts. d \<le> lastRequestTime (service w)"
      by (simp add: gw_inv_def is_fetching_def)
    from inv sl have busy: "isProcessingQueue (service w)" by (simp add: gw_inv_def)
    from gw_inv_after_drain [OF inv dr pre _ before busy] time TimerFires w'
    show ?thesis by simp
  next
    case (TransportDone t res)
    with r obtain request where f: "loop w = Fetching request"
      and td: "transport_done (service w) request t res = (svc', pc, acts)"
      by (auto simp add: react_def split: loop_state.splits)
    obtain svc1 outcome where fin:
      "executeRequest_finish (service w) t (endpoint request) res = (svc1, outcome)"
      by (metis prod.exhaust)
    obtain s2 p2 a2 where dr: "drain False (svc1\<lparr>lastRequestTime := t\<rparr>) t = (s2, p2, a2)"
      by (metis prod_cases3)
    from td fin dr have res: "svc' = s2" "pc = p2" "dispatch_times acts = dispatch_times a2"
      by (auto simp add: transport_done_def split: sum.splits)
    from fin have same: "isProcessingQueue svc1 = isProcessingQueue (service w)"
      by (auto simp add: executeRequest_finish_def split: transport_result.splits if_splits option.splits)
    from inv f have busy: "isProcessingQueue (svc1\<lparr>lastRequestTime := t\<rparr>)"
      using same by (simp add: gw_inv_def)
    from inv time TransportDone have before: "\<forall>d\<in>set ts. d \<le> lastRequestTime (svc1\<lparr>lastRequestTime := t\<rparr>)"
      by (fastforce simp add: gw_inv_def)
    from gw_inv_after_drain [OF inv dr _ _ before busy] time TransportDone w' res
    show ?thesis by simp
  qed
qed

lemma run_preserves:
  "gw_inv w ts \<Longrightarrow> run w evs = Some (w', acts) \<Longrightarrow> gw_inv w' (ts @ dispatch_times acts)"
proof (induction evs arbitrary: w ts acts)
  case Nil
  then show ?case by simp
next
  case (Cons ev evs)
  from Cons.prems(2) obtain w1 acts1 acts2 where s: "step w ev = Some (w1, acts1)"
    and r: "run w1 evs = Some (w', acts2)" and a: "acts = acts1 @ acts2"
    by (auto split: option.splits)
  from step_preserves [OF Cons.prems(1) s] have "gw_inv w1 (ts @ dispatch_times acts1)" .
  from Cons.IH [OF this r] a show ?case by (simp add: dispatch_times_append)
qed

lemma gw_inv_new: "gw_inv (new_world cfg start) []"
  by (simp add: gw_inv_def new_world_def new_service_def is_fetching_def)

text \<open>
  Claim C5.  In every run of the gateway from its initial state, whatever the calls,
  the delays of the timer and the latencies of the transport, two successive calls
  of the transport are at least \<open>RATE_LIMIT_DELAY\<close> (200 ms) apart.
\<close>

theorem dispatch_spacing:
  assumes "run (new_world cfg start) evs = Some (w, acts)"
  shows "successively (\<lambda>a b. a + RATE_LIMIT_DELAY \<le> b) (dispatch_times acts)"
  using run_preserves [OF gw_inv_new assms] by (simp add: gw_inv_def)

lemma demo_run_dispatches:
  "map_option (dispatch_times \<circ> snd)
     (run (new_world demo_config 1000000)
        [Call 1000000 ''/campaigns'' 1, Call 1000000 ''/client'' 2, Call 1000001 ''/email-accounts'' 3,
         TransportDone 1000100 (demo_ok ''c''), TimerFires 1000300,
         TransportDone 1000350 (demo_ok ''k''), TimerFires 1000560]) =
   Some [1000000, 1000300, 1000560]"
  by code_simp

theorem dispatch_spacing_witness:
  "\<exists>w acts.
     run (new_world demo_config 1000000)
        [Call 1000000 ''/campaigns'' 1, Call 1000000 ''/client'' 2, Call 1000001 ''/email-accounts'' 3,
         TransportDone 1000100 (demo_ok ''c''), TimerFires 1000300,
         TransportDone 1000350 (demo_ok ''k''), TimerFires 1000560] = Some (w, acts) \<and>
     dispatch_times acts = [1000000, 1000300, 1000560] \<and>
     successively (\<lambda>a b. a + RATE_LIMIT_DELAY \<le> b) (dispatch_times acts)"
proof -
  from demo_run_dispatches obtain w acts where
    r: "run (new_world demo_config 1000000)
        [Call 1000000 ''/campaigns'' 1, Call 1000000 ''/client'' 2, Call 1000001 ''/email-accounts'' 3,
         TransportDone 1000100 (demo_ok ''c''), TimerFires 1000300,
         TransportDone 1000350 (demo_ok ''k''), TimerFires 1000560] = Some (w, acts)"
    and d: "dispatch_times acts = [1000000, 1000300, 1000560]"
    by auto
  from dispatch_spacing [OF r] r d show ?thesis by blast
qed

subsection \<open>The cache and its time to live\<close>

text \<open>
  Claim C6, as the specification states it, fails.  The campaign list is fetched and
  stored at time 1000100.  A request for it arrives at time 1300000, when the entry is
  299900 ms old, within the TTL of 300000 ms.  It has to wait for the rate limit behind
  an unrelated request that ended 10 ms before, is taken from the queue at time 1300190,
  when the entry is 300090 ms old, and is answered by a second transport call.
\<close>

theorem cache_ttl_counterexample:
  "(case run (new_world demo_config 1000000)
          [Call 1000000 ''/campaigns'' 1, TransportDone 1000100 (demo_ok ''v''),
           Call 1299950 ''/client'' 2, TransportDone 1299990 (demo_ok ''w''),
           Call 1300000 ''/campaigns'' 3, TimerFires 1300190] of
      None \<Rightarrow> False
    | Some (w, acts) \<Rightarrow>
        acts =
          [Dispatch 1000000 ''https://server.smartlead.ai/api/v1/campaigns?api_key=KEY'',
           Resolve 1 ''v'',
           Dispatch 1299950 ''https://server.smartlead.ai/api/v1/client?api_key=KEY'',
           Resolve 2 ''w'',
           Dispatch 1300190 ''https://server.smartlead.ai/api/v1/campaigns?api_key=KEY'']) \<and>
   1300000 - 1000100 < CACHE_DURATION"
  by code_simp

text \<open>
  Claim C6, amended.  A successful response with payload \<open>v\<close> for an identity is stored
  under that identity with the time of the response.  The entry is looked up when the
  drain loop takes a request from the queue, not when the request arrives: a later
  request for the same endpoint that is taken from the queue less than the TTL after
  the entry was stored is resolved with \<open>v\<close>, without a transport call and without a
  change of the cache; one taken from the queue when the TTL has elapsed finds the entry
  absent and is sent to the transport.
\<close>

theorem cache_ttl_at_dequeue:
  assumes ok: "response_ok st"
    and stored: "cache svc2 (cacheKey ep) = Some (v, t0)"
    and q: "requestQueue svc2 = request # rest"
    and e: "endpoint request = ep"
    and w: "waited \<or> RATE_LIMIT_DELAY \<le> now - lastRequestTime svc2"
  shows
    "executeRequest_finish svc t0 ep (HttpResponse st statusText (Some v)) =
       (svc\<lparr>cache := (cache svc)(cacheKey ep \<mapsto> (v, t0))\<rparr>, Inr v) \<and>
     cache_lookup (svc\<lparr>cache := (cache svc)(cacheKey ep \<mapsto> (v, t0))\<rparr>) now ep =
       (if now - t0 < CACHE_DURATION then Some v else None) \<and>
     (now - t0 < CACHE_DURATION \<longrightarrow>
        snd (snd (drain waited svc2 now)) = [Resolve (caller request) v] \<and>
        cache (fst (drain waited svc2 now)) = cache svc2) \<and>
     (CACHE_DURATION \<le> now - t0 \<longrightarrow>
        drain waited svc2 now =
          (svc2\<lparr>requestQueue := rest\<rparr>, Fetching request,
           [Dispatch now (request_url (config svc2) ep)]))"
proof (intro conjI impI)
  show "executeRequest_finish svc t0 ep (HttpResponse st statusText (Some v)) =
       (svc\<lparr>cache := (cache svc)(cacheKey ep \<mapsto> (v, t0))\<rparr>, Inr v)"
    using ok by (simp add: executeRequest_finish_def)
  show "cache_lookup (svc\<lparr>cache := (cache svc)(cacheKey ep \<mapsto> (v, t0))\<rparr>) now ep =
       (if now - t0 < CACHE_DURATION then Some v else None)"
    by (simp add: cache_lookup_def)
  from w have w': "waited \<or> \<not> now - lastRequestTime svc2 < RATE_LIMIT_DELAY" by auto
  {
    assume "now - t0 < CACHE_DURATION"
    then have hit: "cache_lookup svc2 now (endpoint request) = Some v"
      using stored e by (simp add: cache_lookup_def)
    note h = drain_cache_hit [OF q w' hit]
    from h show "snd (snd (drain waited svc2 now)) = [Resolve (caller request) v]" by simp
    from h show "cache (fst (drain waited svc2 now)) = cache svc2" by simp
  }
  {
    assume "CACHE_DURATION \<le> now - t0"
    then have miss: "cache_lookup svc2 now (endpoint request) = None"
      using stored e by (simp add: cache_lookup_def)
    from drain_miss [OF q w' miss] e
    show "drain waited svc2 now =
          (svc2\<lparr>requestQueue := rest\<rparr>, Fetching request,
           [Dispatch now (request_url (config svc2) ep)])" by simp
  }
qed

theorem cache_ttl_at_dequeue_witness:
  "snd (snd (drain True demo_queued 1000300)) = [Resolve 2 ''payload''] \<and>
   drain True demo_queued 1300100 =
     (demo_queued\<lparr>requestQueue := []\<rparr>,
      Fetching \<lparr>endpoint = ''/campaigns'', caller = 2, timestamp = 1000150\<rparr>,
      [Dispatch 1300100 (request_url demo_config ''/campaigns'')])"
proof -
  have ok: "response_ok 200" by (simp add: response_ok_def)
  have stored: "cache demo_queued (cacheKey ''/campaigns'') = Some (''payload'', 1000100)"
    by (simp add: demo_queued_def demo_cached_def)
  have q: "requestQueue demo_queued =
      \<lparr>endpoint = ''/campaigns'', caller = 2, timestamp = 1000150\<rparr> # []"
    by (simp add: demo_queued_def)
  have e: "endpoint \<lparr>endpoint = ''/campaigns'', caller = 2, timestamp = 1000150\<rparr> = ''/campaigns''"
    by simp
  have w: "True \<or> RATE_LIMIT_DELAY \<le> now - lastRequestTime demo_queued" for now by simp
  have cfg: "config demo_queued = demo_config"
    by (simp add: demo_queued_def demo_cached_def new_service_def)
  from cache_ttl_at_dequeue [OF ok stored q e w, where now = 1000300]
       cache_ttl_at_dequeue [OF ok stored q e w, where now = 1300100] cfg
  show ?thesis by (simp add: CACHE_DURATION_def)
qed

text \<open>
  The scenario of the specification: twelve calls for the same identity before the
  first one completes, with timers that fire when they are due, give one transport call
  and twelve times the same payload.
\<close>

lemma twelve_callers_one_transport_call:
  "map_option snd (run (new_world demo_config 1000000)
     [Call 1000000 ''/campaigns'' 1, Call 1000000 ''/campaigns'' 2, Call 1000000 ''/campaigns'' 3,
      Call 1000000 ''/campaigns'' 4, Call 1000000 ''/campaigns'' 5, Call 1000000 ''/campaigns'' 6,
      Call 1000001 ''/campaigns'' 7, Call 1000001 ''/campaigns'' 8, Call 1000001 ''/campaigns'' 9,
      Call 1000001 ''/campaigns'' 10, Call 1000001 ''/campaigns'' 11, Call 1000001 ''/campaigns'' 12,
      TransportDone 1000100 (demo_ok ''v''),
      TimerFires 1000300, TimerFires 1000500, TimerFires 1000700, TimerFires 1000900,
      TimerFires 1001100, TimerFires 1001300, TimerFires 1001500, TimerFires 1001700,
      TimerFires 1001900, TimerFires 1002100, TimerFires 1002300]) =
   Some [Dispatch 1000000 ''https://server.smartlead.ai/api/v1/campaigns?api_key=KEY'',
         Resolve 1 ''v'', Resolve 2 ''v'', Resolve 3 ''v'', Resolve 4 ''v'', Resolve 5 ''v'',
         Resolve 6 ''v'', Resolve 7 ''v'', Resolve 8 ''v'', Resolve 9 ''v'', Resolve 10 ''v'',
         Resolve 11 ''v'', Resolve 12 ''v'']"
  by code_simp

subsection \<open>First in, first out\<close>

lemma settled_callers_append:
  "settled_callers (xs @ ys) = settled_callers xs @ settled_callers ys"
  by (induction xs rule: settled_callers.induct) simp_all

lemma callers_append: "callers (xs @ ys) = callers xs @ callers ys"
  by (induction xs rule: callers.induct) simp_all

lemma drain_fifo:
  "drain waited svc now = (svc', pc, acts) \<Longrightarrow>
   map caller (requestQueue svc) = settled_callers acts @ pending svc' pc"
proof (induction waited svc now arbitrary: svc' pc acts rule: drain.induct)
  case (1 waited svc now)
  show ?case
  proof (cases "requestQueue svc")
    case Nil
    from drain_Nil [OF Nil, of waited now] "1.prems" Nil show ?thesis
      by (auto simp add: pending_def)
  next
    case (Cons request rest)
    show ?thesis
    proof (cases "\<not> waited \<and> now - lastRequestTime svc < RATE_LIMIT_DELAY")
      case True
      with drain_sleep [OF Cons, of waited now] "1.prems" Cons show ?thesis
        by (auto simp add: pending_def)
    next
      case wait_over: False
      then have w: "waited \<or> \<not> now - lastRequestTime svc < RATE_LIMIT_DELAY" by blast
      show ?thesis
      proof (cases "cache_lookup svc now (endpoint request)")
        case None
        from drain_miss [OF Cons w None] "1.prems" Cons show ?thesis
          by (auto simp add: pending_def)
      next
        case (Some d)
        obtain s1 p1 a1 where rec:
          "drain False (svc\<lparr>requestQueue := rest, lastRequestTime := now\<rparr>) now = (s1, p1, a1)"
          by (metis prod_cases3)
        from drain_hit [OF Cons w Some rec] "1.prems"
        have res: "svc' = s1" "pc = p1" "acts = Resolve (caller request) d # a1" by simp_all
        from "1.IH" [OF Cons wait_over Some rec]
        have "map caller rest = settled_callers a1 @ pending s1 p1" by simp
        with res Cons show ?thesis by simp
      qed
    qed
  qed
qed

lemma step_fifo:
  assumes inv: "gw_inv w ts"
    and st: "step w ev = Some (w', acts)"
  shows "pending (service w) (loop w) @ callers [ev] =
         settled_callers acts @ pending (service w') (loop w')"
proof -
  from st obtain svc' pc where r: "react w ev = Some (svc', pc, acts)"
    and w': "w' = \<lparr>service = svc', loop = pc, clock = event_time ev\<rparr>"
    by (auto simp add: step_def split: if_splits option.splits)
  show ?thesis
  proof (cases ev)
    case (Call t ep c)
    with r have mk: "makeRequest (service w) (loop w) t ep c = (svc', pc, acts)"
      by (simp add: react_def)
    let ?svc1 = "(service w)\<lparr>requestQueue :=
                   requestQueue (service w) @ [\<lparr>endpoint = ep, caller = c, timestamp = t\<rparr>]\<rparr>"
    show ?thesis
    proof (cases "isProcessingQueue (service w)")
      case True
      with mk have "svc' = ?svc1" "pc = loop w" "acts = []"
        by (simp_all add: makeRequest_def Let_def)
      with w' Call show ?thesis by (simp add: pending_def)
    next
      case False
      with mk have dr: "drain False (?svc1\<lparr>isProcessingQueue := True\<rparr>) t = (svc', pc, acts)"
        by (simp add: makeRequest_def Let_def)
      from False inv have idle: "loop w = Idle" by (simp add: gw_inv_def)
      from drain_fifo [OF dr] idle w' Call show ?thesis by (simp add: pending_def)
    qed
  next
    case (TimerFires t)
    with r obtain due where sl: "loop w = Sleeping due"
      and dr: "drain True (service w) t = (svc', pc, acts)"
      by (auto simp add: react_def split: loop_state.splits if_splits)
    from drain_fifo [OF dr] sl w' TimerFires show ?thesis by (simp add: pending_def)
  next
    case (TransportDone t res)
    with r obtain request where f: "loop w = Fetching request"
      and td: "transport_done (service w) request t res = (svc', pc, acts)"
      by (auto simp add: react_def split: loop_state.splits)
    obtain svc1 outcome where fin:
      "executeRequest_finish (service w) t (endpoint request) res = (svc1, outcome)"
      by (metis prod.exhaust)
    obtain s2 p2 a2 where dr: "drain False (svc1\<lparr>lastRequestTime := t\<rparr>) t = (s2, p2, a2)"
      by (metis prod_cases3)
    from td fin dr have res: "svc' = s2" "pc = p2"
      "settled_callers acts = caller request # settled_callers a2"
      by (auto simp add: transport_done_def split: sum.splits)
    from fin have same: "requestQueue svc1 = requestQueue (service w)"
      by (auto simp add: executeRequest_finish_def
          split: transport_result.splits if_splits option.splits)
    from drain_fifo [OF dr] same res f w' TransportDone show ?thesis
      by (simp add: pending_def)
  qed
qed

lemma run_fifo:
  "gw_inv w ts \<Longrightarrow> run w evs = Some (w', acts) \<Longrightarrow>
   pending (service w) (loop w) @ callers evs =
   settled_callers acts @ pending (service w') (loop w')"
proof (induction evs arbitrary: w ts acts)
  case Nil
  then show ?case by simp
next
  case (Cons ev evs)
  from Cons.prems(2) obtain w1 acts1 acts2 where s: "step w ev = Some (w1, acts1)"
    and r: "run w1 evs = Some (w', acts2)" and a: "acts = acts1 @ acts2"
    by (auto split: option.splits)
  from step_preserves [OF Cons.prems(1) s] have inv1: "gw_inv w1 (ts @ dispatch_times acts1)" .
  from step_fifo [OF Cons.prems(1) s]
  have one: "pending (service w) (loop w) @ callers [ev] =
      settled_callers acts1 @ pending (service w1) (loop w1)" .
  from Cons.IH [OF inv1 r]
  have more: "pending (service w1) (loop w1) @ callers evs =
      settled_callers acts2 @ pending (service w') (loop w')" .
  have "callers (ev # evs) = callers [ev] @ callers evs"
    using callers_append [of "[ev]" evs] by simp
  then have "pending (service w) (loop w) @ callers (ev # evs) =
      (pending (service w) (loop w) @ callers [ev]) @ callers evs" by simp
  also have "\<dots> = settled_callers acts1 @ (pending (service w1) (loop w1) @ callers evs)"
    using one by simp
  also have "\<dots> = settled_callers acts1 @ settled_callers acts2 @ pending (service w') (loop w')"
    using more by simp
  finally show ?case by (simp add: a settled_callers_append)
qed

text \<open>
  The gateway settles its callers in the order of their calls: at any moment of a run
  the callers so far are those settled, in that order, followed by those who wait.
\<close>

lemma callers_settle_in_call_order:
  assumes "run (new_world cfg start) evs = Some (w, acts)"
  shows "callers evs = settled_callers acts @ pending (service w) (loop w)"
  using run_fifo [OF gw_inv_new assms]
  by (simp add: pending_def new_world_def new_service_def)

subsection \<open>Decimal numerals\<close>

lemma digit_char_code: "d < 10 \<Longrightarrow> of_char (digit_char d) = 48 + d"
  by (simp add: digit_char_def)

lemma digit_char_eq_iff:
  assumes "a < 10" and "b < 10"
  shows "digit_char a = digit_char b \<longleftrightarrow> a = b"
proof
  assume "digit_char a = digit_char b"
  then have "(of_char (digit_char a) :: nat) = of_char (digit_char b)" by (rule arg_cong)
  then have "48 + a = 48 + b" by (simp only: digit_char_code [OF assms(1)] digit_char_code [OF assms(2)])
  then show "a = b" by simp
next
  assume "a = b"
  then show "digit_char a = digit_char b" by (rule arg_cong)
qed

lemma show_nat_small: "n < 10 \<Longrightarrow> show_nat n = [digit_char n]"
  by (subst show_nat.simps) simp

lemma show_nat_big:
  "\<not> n < 10 \<Longrightarrow> show_nat n = show_nat (n div 10) @ [digit_char (n mod 10)]"
  by (subst show_nat.simps) simp

lemma show_nat_not_Nil: "show_nat n \<noteq> []"
  by (cases "n < 10") (simp_all add: show_nat_small show_nat_big)

lemma show_nat_codes: "c \<in> set (show_nat n) \<Longrightarrow> 48 \<le> (of_char c :: nat) \<and> (of_char c :: nat) \<le> 57"
proof (induction n rule: show_nat.induct)
  case (1 n)
  show ?case
  proof (cases "n < 10")
    case True
    with "1.prems" have "c = digit_char n" by (simp add: show_nat_small)
    with True show ?thesis by (simp add: digit_char_code)
  next
    case False
    with "1.prems" have "c \<in> set (show_nat (n div 10)) \<or> c = digit_char (n mod 10)"
      by (auto simp add: show_nat_big)
    then show ?thesis
    proof
      assume "c \<in> set (show_nat (n div 10))"
      with "1.IH" False show ?thesis by simp
    next
      assume "c = digit_char (n mod 10)"
      then show ?thesis by (simp add: digit_char_code)
    qed
  qed
qed

lemma show_nat_length_one: "length (show_nat n) = 1 \<longleftrightarrow> n < 10"
proof (cases "n < 10")
  case True
  then show ?thesis by (simp add: show_nat_small)
next
  case False
  have "show_nat (n div 10) \<noteq> []" by (rule show_nat_not_Nil)
  then have "length (show_nat (n div 10)) \<noteq> 0" by simp
  with False show ?thesis by (simp add: show_nat_big)
qed

lemma show_nat_inj: "show_nat m = show_nat n \<Longrightarrow> m = n"
proof (induction m arbitrary: n rule: show_nat.induct)
  case (1 m)
  from "1.prems" have "length (show_nat m) = 1 \<longleftrightarrow> length (show_nat n) = 1"
    by (rule arg_cong [where f = "\<lambda>s. length s = 1"])
  then have same: "m < 10 \<longleftrightarrow> n < 10" by (simp only: show_nat_length_one)
  show ?case
  proof (cases "m < 10")
    case True
    with same have n: "n < 10" by simp
    from "1.prems" have "[digit_char m] = [digit_char n]"
      by (simp only: show_nat_small [OF True] show_nat_small [OF n])
    then have "digit_char m = digit_char n" by simp
    then show ?thesis by (simp only: digit_char_eq_iff [OF True n])
  next
    case False
    with same have n: "\<not> n < 10" by simp
    from "1.prems" have "show_nat (m div 10) @ [digit_char (m mod 10)] =
        show_nat (n div 10) @ [digit_char (n mod 10)]"
      by (simp only: show_nat_big [OF False] show_nat_big [OF n])
    then have q: "show_nat (m div 10) = show_nat (n div 10)"
      and r: "digit_char (m mod 10) = digit_char (n mod 10)" by simp_all
    from "1.IH" [OF False q] have d: "m div 10 = n div 10" .
    have "m mod 10 < 10" and "n mod 10 < 10" by simp_all
    from r digit_char_eq_iff [OF this] have e: "m mod 10 = n mod 10" by simp
    have "m = 10 * (m div 10) + m mod 10" by simp
    also have "\<dots> = 10 * (n div 10) + n mod 10" by (simp only: d e)
    also have "\<dots> = n" by simp
    finally show ?thesis .
  qed
qed

lemma minus_not_digit: "CHR ''-'' \<notin> set (show_nat n)"
  using show_nat_codes [of "CHR ''-''" n] by auto

lemma show_int_inj: "show_int i = show_int j \<Longrightarrow> i = j"
proof (cases "i < 0"; cases "j < 0")
  assume "i < 0" "j < 0" "show_int i = show_int j"
  then have "show_nat (nat (- i)) = show_nat (nat (- j))" by (simp add: show_int_def)
  then have "nat (- i) = nat (- j)" by (rule show_nat_inj)
  with \<open>i < 0\<close> \<open>j < 0\<close> show ?thesis by simp
next
  assume "i < 0" "\<not> j < 0" "show_int i = show_int j"
  then have "show_nat (nat j) = CHR ''-'' # show_nat (nat (- i))"
    by (simp add: show_int_def)
  then have "CHR ''-'' \<in> set (show_nat (nat j))" by simp
  then show ?thesis by (simp add: minus_not_digit)
next
  assume "\<not> i < 0" "j < 0" "show_int i = show_int j"
  then have "show_nat (nat i) = CHR ''-'' # show_nat (nat (- j))"
    by (simp add: show_int_def)
  then have "CHR ''-'' \<in> set (show_nat (nat i))" by simp
  then show ?thesis by (simp add: minus_not_digit)
next
  assume "\<not> i < 0" "\<not> j < 0" "show_int i = show_int j"
  then have "show_nat (nat i) = show_nat (nat j)" by (simp add: show_int_def)
  then have "nat i = nat j" by (rule show_nat_inj)
  with \<open>\<not> i < 0\<close> \<open>\<not> j < 0\<close> show ?thesis by simp
qed

lemma amp_not_in_show_int: "CHR ''&'' \<notin> set (show_int i)"
  using show_nat_codes [of "CHR ''&''"] by (auto simp add: show_int_def)

lemma split_at_separator:
  assumes "xs @ c # ys = xs' @ c # ys'" and "c \<notin> set xs" and "c \<notin> set xs'"
  shows "xs = xs' \<and> ys = ys'"
proof -
  have "takeWhile (\<lambda>x. x \<noteq> c) (xs @ c # ys) = xs"
    using assms(2) by (auto simp add: takeWhile_tail)
  moreover have "takeWhile (\<lambda>x. x \<noteq> c) (xs' @ c # ys') = xs'"
    using assms(3) by (auto simp add: takeWhile_tail)
  ultimately have "xs = xs'" using assms(1) by simp
  with assms(1) show ?thesis by simp
qed

lemma offset_limit_inj:
  assumes "show_int a @ ''&limit='' @ show_int b = show_int a' @ ''&limit='' @ show_int b'"
  shows "a = a' \<and> b = b'"
proof -
  from assms have "show_int a @ CHR ''&'' # (''limit='' @ show_int b) =
      show_int a' @ CHR ''&'' # (''limit='' @ show_int b')" by simp
  from split_at_separator [OF this amp_not_in_show_int amp_not_in_show_int]
  have "show_int a = show_int a'" and "show_int b = show_int b'" by simp_all
  then show ?thesis by (simp only: show_int_inj [of a a'] show_int_inj [of b b'])
qed

subsection \<open>Request identities\<close>

text \<open>
  Claim C9, as the specification states it, fails: \<open>getCampaigns\<close> takes an offset and
  a limit and ignores them, so two calls with different offsets and limits have the same
  request identity.
\<close>

theorem getCampaigns_counterexample:
  "getCampaigns 0 100 = getCampaigns 100 50"
  by (simp add: getCampaigns_def)

text \<open>
  Claim C9, amended.  A wrapper builds its request identity from the endpoint and the
  query parameters that its endpoint string names, and does nothing else.  The identity
  of \<open>getCampaigns\<close> is \<open>/campaigns\<close> whatever the offset and the limit (the
  operation gets all campaigns).  For the paginated operations \<open>getEmailAccounts\<close> and
  \<open>getCampaignLeads\<close>, two calls have the same identity exactly when their offsets and
  limits are the same.
\<close>

theorem wrapper_identities:
  "getCampaigns offset limit = ''/campaigns'' \<and>
   (getEmailAccounts offset limit = getEmailAccounts offset' limit' \<longleftrightarrow>
      offset = offset' \<and> limit = limit') \<and>
   (getCampaignLeads campaignId offset limit = getCampaignLeads campaignId offset' limit' \<longleftrightarrow>
      offset = offset' \<and> limit = limit') \<and>
   getEmailAccounts offset limit =
     ''/email-accounts?offset='' @ show_int offset @ ''&limit='' @ show_int limit \<and>
   getCampaignAnalytics campaignId = ''/campaigns/'' @ campaignId @ ''/analytics''"
proof (intro conjI)
  show "getCampaigns offset limit = ''/campaigns''" by (simp add: getCampaigns_def)
  show "getEmailAccounts offset limit = getEmailAccounts offset' limit' \<longleftrightarrow>
      offset = offset' \<and> limit = limit'"
  proof
    assume "getEmailAccounts offset limit = getEmailAccounts offset' limit'"
    then have "show_int offset @ ''&limit='' @ show_int limit =
        show_int offset' @ ''&limit='' @ show_int limit'"
      by (simp add: getEmailAccounts_def)
    then show "offset = offset' \<and> limit = limit'" by (rule offset_limit_inj)
  next
    assume "offset = offset' \<and> limit = limit'"
    then show "getEmailAccounts offset limit = getEmailAccounts offset' limit'" by simp
  qed
  show "getCampaignLeads campaignId offset limit = getCampaignLeads campaignId offset' limit' \<longleftrightarrow>
      offset = offset' \<and> limit = limit'"
  proof
    assume "getCampaignLeads campaignId offset limit = getCampaignLeads campaignId offset' limit'"
    then have "show_int offset @ ''&limit='' @ show_int limit =
        show_int offset' @ ''&limit='' @ show_int limit'"
      by (simp add: getCampaignLeads_def)
    then show "offset = offset' \<and> limit = limit'" by (rule offset_limit_inj)
  next
    assume "offset = offset' \<and> limit = limit'"
    then show "getCampaignLeads campaignId offset limit = getCampaignLeads campaignId offset' limit'"
      by simp
  qed
  show "getEmailAccounts offset limit =
     ''/email-accounts?offset='' @ show_int offset @ ''&limit='' @ show_int limit"
    by (simp add: getEmailAccounts_def)
  show "getCampaignAnalytics campaignId = ''/campaigns/'' @ campaignId @ ''/analytics''"
    by (simp add: getCampaignAnalytics_def)
qed

theorem wrapper_identities_witness:
  "getEmailAccounts 0 100 \<noteq> getEmailAccounts 100 100 \<and> getCampaigns 0 100 = ''/campaigns''"
proof -
  from wrapper_identities [of 0 100 100 100 "''7''"]
  have "getCampaigns 0 100 = ''/campaigns''"
    and "getEmailAccounts 0 100 = getEmailAccounts 100 100 \<longleftrightarrow> (0::int) = 100 \<and> (100::int) = 100"
    by blast+
  then show ?thesis by simp
qed

section \<open>Properties of the document builder\<close>

subsection \<open>Numbers\<close>



lemma js_gt_sub: "js_gt (js_sub a b) (Num 0) = js_lt b a"
  by (cases a; cases b) (simp_all add: js_gt_def js_sub_def)

lemma js_lt_asym: "js_lt a b \<Longrightarrow> \<not> js_lt b a"
  by (cases a; cases b) simp_all

lemma js_lt_cotrans:
  "b \<noteq> NaN \<Longrightarrow> \<not> js_lt b a \<Longrightarrow> \<not> js_lt c b \<Longrightarrow> \<not> js_lt c a"
  by (cases a; cases b; cases c) simp_all




subsection \<open>Derived rates\<close>



subsection \<open>The comparator sort\<close>

lemma by_reply_asc_gt:
  "js_gt (by_reply_asc a b) (Num 0) = js_lt (reply_rate b) (reply_rate a)"
  unfolding by_reply_asc_def by (rule js_gt_sub)

lemma mset_insert_by: "mset (insert_by cmp x ys) = add_mset x (mset ys)"
  by (induction ys) simp_all

lemma mset_sort_by: "mset (sort_by cmp xs) = mset xs"
  by (induction xs) (simp_all add: sort_by_def mset_insert_by)

lemma set_insert_by: "set (insert_by cmp x ys) = insert x (set ys)"
  using mset_insert_by [of cmp x ys] by (metis set_mset_add_mset_insert set_mset_mset)

lemma set_sort_by: "set (sort_by cmp xs) = set xs"
  using mset_sort_by [of cmp xs] by (metis set_mset_mset)

lemma length_sort_by: "length (sort_by cmp xs) = length xs"
  using mset_sort_by [of cmp xs] by (metis size_mset)

lemma sorted_insert_asc:
  assumes "sorted_wrt reply_le ys" and "reply_rate x \<noteq> NaN"
    and "\<forall>y\<in>set ys. reply_rate y \<noteq> NaN"
  shows "sorted_wrt reply_le (insert_by by_reply_asc x ys)"
  using assms
proof (induction ys)
  case Nil
  then show ?case by simp
next
  case (Cons y ys)
  show ?case
  proof (cases "js_lt (reply_rate y) (reply_rate x)")
    case True
    have tail: "sorted_wrt reply_le (insert_by by_reply_asc x ys)"
      using Cons by simp
    have "reply_le y x" using True by (simp add: reply_le_def js_lt_asym)
    moreover have "\<forall>z\<in>set ys. reply_le y z" using Cons.prems(1) by simp
    ultimately have "\<forall>z\<in>set (insert_by by_reply_asc x ys). reply_le y z"
      by (simp add: set_insert_by)
    with tail True show ?thesis by (simp add: by_reply_asc_gt)
  next
    case False
    have xy: "reply_le x y" using False by (simp add: reply_le_def)
    have "\<forall>z\<in>set ys. reply_le x z"
    proof
      fix z assume "z \<in> set ys"
      then have "reply_le y z" using Cons.prems(1) by simp
      moreover have "reply_rate y \<noteq> NaN" using Cons.prems(3) by simp
      ultimately show "reply_le x z"
        using xy unfolding reply_le_def by (metis js_lt_cotrans)
    qed
    with xy Cons.prems(1) False show ?thesis by (simp add: by_reply_asc_gt)
  qed
qed

lemma sorted_sort_asc:
  "\<forall>x\<in>set xs. reply_rate x \<noteq> NaN \<Longrightarrow> sorted_wrt reply_le (sort_by by_reply_asc xs)"
proof (induction xs)
  case Nil
  then show ?case by (simp add: sort_by_def)
next
  case (Cons x xs)
  have "sorted_wrt reply_le (sort_by by_reply_asc xs)" using Cons by simp
  moreover have "reply_rate x \<noteq> NaN" using Cons.prems by simp
  moreover have "\<forall>y\<in>set (sort_by by_reply_asc xs). reply_rate y \<noteq> NaN"
    using Cons.prems by (simp add: set_sort_by)
  ultimately have "sorted_wrt reply_le (insert_by by_reply_asc x (sort_by by_reply_asc xs))"
    by (rule sorted_insert_asc)
  then show ?case by (simp add: sort_by_def)
qed

lemma needs_improvement_not_NaN: "needs_improvement c \<Longrightarrow> reply_rate c \<noteq> NaN"
  by (cases "reply_rate c") (simp_all add: needs_improvement_def)

subsection \<open>Campaigns needing improvement\<close>

text \<open>
  Claim C8, as the specification states it, fails: a campaign with 100 sends and a reply
  rate of 5 percent is the lowest (and only) campaign with more than 10 sends, yet the
  list of campaigns needing improvement is empty, because the code also requires a reply
  rate below 2 percent.
\<close>

theorem lowPerformers_counterexample:
  "lowPerformers [demo_row ''A'' ''100'' (Num 5)] = [] \<and>
   spec_bottom_performers [demo_row ''A'' ''100'' (Num 5)] = [demo_row ''A'' ''100'' (Num 5)]"
  by code_simp

text \<open>
  Claim C8, amended.  The list of campaigns needing improvement holds the (up to five)
  lowest reply rates, in ascending order, among the campaigns that have more than 10
  sends and a reply rate below 2 percent: every listed campaign is a campaign of the
  export with more than 10 sends and a reply rate below 2, the list has five entries or
  all eligible ones if there are fewer, and no eligible campaign left out has a smaller
  reply rate than a listed one.
\<close>

theorem lowPerformers_lowest_eligible:
  "\<exists>rest.
     mset (lowPerformers data @ rest) = mset (filter needs_improvement data) \<and>
     length (lowPerformers data) = min 5 (length (filter needs_improvement data)) \<and>
     sorted_wrt reply_le (lowPerformers data) \<and>
     (\<forall>c\<in>set (lowPerformers data).
        js_gt (parseInt (sent_count c)) (Num 10) \<and> js_lt (reply_rate c) (Num 2) \<and>
        c \<in> set data \<and> (\<forall>d\<in>set rest. reply_le c d))"
proof -
  define elig where "elig = filter needs_improvement data"
  define srt where "srt = sort_by by_reply_asc elig"
  have low: "lowPerformers data = take 5 srt"
    by (simp add: lowPerformers_def srt_def elig_def)
  have ms: "mset srt = mset elig" by (simp add: srt_def mset_sort_by)
  have st: "set srt = set elig" by (simp add: srt_def set_sort_by)
  have "\<forall>x\<in>set elig. reply_rate x \<noteq> NaN"
    by (simp add: elig_def needs_improvement_not_NaN)
  then have "sorted_wrt reply_le srt"
    unfolding srt_def by (rule sorted_sort_asc)
  then have split: "sorted_wrt reply_le (take 5 srt @ drop 5 srt)" by simp
  have a: "mset (lowPerformers data @ drop 5 srt) = mset (filter needs_improvement data)"
    using ms by (simp add: low elig_def flip: mset_append)
  have b: "length (lowPerformers data) = min 5 (length (filter needs_improvement data))"
    by (simp add: low srt_def length_sort_by elig_def min.commute)
  have c: "sorted_wrt reply_le (lowPerformers data)"
    using split unfolding sorted_wrt_append by (simp add: low)
  have d: "\<forall>c\<in>set (lowPerformers data).
        js_gt (parseInt (sent_count c)) (Num 10) \<and> js_lt (reply_rate c) (Num 2) \<and>
        c \<in> set data \<and> (\<forall>d\<in>set (drop 5 srt). reply_le c d)"
  proof
    fix c assume "c \<in> set (lowPerformers data)"
    then have in_take: "c \<in> set (take 5 srt)" by (simp add: low)
    then have "c \<in> set elig" using st by (metis in_set_takeD)
    then have "needs_improvement c" and "c \<in> set data" by (simp_all add: elig_def)
    moreover have "\<forall>d\<in>set (drop 5 srt). reply_le c d"
      using split in_take unfolding sorted_wrt_append by blast
    ultimately show "js_gt (parseInt (sent_count c)) (Num 10) \<and> js_lt (reply_rate c) (Num 2) \<and>
        c \<in> set data \<and> (\<forall>d\<in>set (drop 5 srt). reply_le c d)"
      by (simp add: needs_improvement_def)
  qed
  from a b c d show ?thesis by blast
qed

lemma lowPerformers_demo:
  "lowPerformers [demo_row ''A'' ''100'' (Num 1), demo_row ''B'' ''8'' (Num 0),
       demo_row ''C'' ''50'' (Num (1 / 2)), demo_row ''D'' ''500'' (Num 7)]
    = [demo_row ''C'' ''50'' (Num (1 / 2)), demo_row ''A'' ''100'' (Num 1)]"
  by code_simp

theorem lowPerformers_lowest_eligible_witness:
  "demo_row ''C'' ''50'' (Num (1 / 2)) \<in>
     set (lowPerformers [demo_row ''A'' ''100'' (Num 1), demo_row ''B'' ''8'' (Num 0),
       demo_row ''C'' ''50'' (Num (1 / 2)), demo_row ''D'' ''500'' (Num 7)]) \<and>
   js_gt (parseInt (sent_count (demo_row ''C'' ''50'' (Num (1 / 2))))) (Num 10) \<and>
   js_lt (reply_rate (demo_row ''C'' ''50'' (Num (1 / 2)))) (Num 2)"
proof -
  let ?D = "[demo_row ''A'' ''100'' (Num 1), demo_row ''B'' ''8'' (Num 0),
       demo_row ''C'' ''50'' (Num (1 / 2)), demo_row ''D'' ''500'' (Num 7)]"
  have m: "demo_row ''C'' ''50'' (Num (1 / 2)) \<in> set (lowPerformers ?D)"
    by (simp add: lowPerformers_demo)
  from lowPerformers_lowest_eligible [of ?D] m show ?thesis by blast
qed

subsection \<open>An export without campaigns\<close>

lemma average_empty: "average field [] = NaN"
  by (simp add: average_def sum_rate_def js_length_def)

lemma chart_metrics_empty: "chart_metrics [] = nan_chart_rows"
  by (simp add: chart_metrics_def average_empty nan_chart_rows_def)

lemma clientPerformance_empty: "clientPerformance [] clients = []"
  by (simp add: clientPerformance_def filter_map comp_def)

lemma charts_empty:
  "\<exists>labels. length labels = 27 \<and> createChartsSheet [] clients = labels @ nan_chart_rows"
  by (simp add: createChartsSheet_def clientPerformance_empty sort_by_def chart_metrics_empty)

lemma quick_empty:
  "\<exists>labels. length labels = 14 \<and> createQuickChartsSheet [] clients = labels @ nan_quick_rows"
  by (simp add: createQuickChartsSheet_def sort_by_def List.map_filter_def average_empty
      quick_metric_def nan_quick_rows_def)

text \<open>
  Claim C10.  When no campaign passes the filter, \<open>generateCampaignExport\<close> still builds
  and writes the workbook: the data sheet has only its header row, the summary sheet is
  the single cell "No data available for the selected criteria", and the four average
  rows that end the charts sheet and the quick-charts sheet are computed as
  \<open>0 / 0\<close>: the charts sheet holds the number \<open>NaN\<close> in them and the quick-charts sheet
  the text \<open>NaN%\<close>.
\<close>

theorem empty_export:
  assumes "filter (export_filter L startDate endDate selectedClientId) campaigns = []"
  shows "\<exists>chart_labels quick_labels.
     length chart_labels = 27 \<and> length quick_labels = 14 \<and>
     generateCampaignExport L campaigns analytics clients startDate endDate selectedClientId =
       Inr (export_filename L clients startDate endDate selectedClientId,
            [(''Campaign Data'', [data_headers]),
             (''Performance Charts'', chart_labels @ nan_chart_rows),
             (''Summary & Insights'', [[CStr ''No data available for the selected criteria'']]),
             (''Quick Charts'', quick_labels @ nan_quick_rows)])"
proof -
  have data: "exportData L campaigns analytics clients startDate endDate selectedClientId = []"
    using assms by (simp add: exportData_def)
  obtain cl where cl: "length cl = 27" "createChartsSheet [] clients = cl @ nan_chart_rows"
    using charts_empty by blast
  obtain ql where ql: "length ql = 14" "createQuickChartsSheet [] clients = ql @ nan_quick_rows"
    using quick_empty by blast
  have "generateCampaignExport L campaigns analytics clients startDate endDate selectedClientId =
       Inr (export_filename L clients startDate endDate selectedClientId,
            [(''Campaign Data'', [data_headers]),
             (''Performance Charts'', cl @ nan_chart_rows),
             (''Summary & Insights'', [[CStr ''No data available for the selected criteria'']]),
             (''Quick Charts'', ql @ nan_quick_rows)])"
    by (simp add: generateCampaignExport_def data createDataSheet_def createSummarySheet_def cl ql)
  with cl(1) ql(1) show ?thesis by blast
qed

lemma demo_filter_empty:
  "filter (export_filter demo_lib 1704067200000 1709078400000 None)
     [demo_campaign 3 ''March'' ''2024-03-01''] = []"
  by (simp add: export_filter_def isInDateRange_def demo_lib_def demo_campaign_def)

theorem empty_export_witness:
  "\<exists>chart_labels quick_labels.
     generateCampaignExport demo_lib [demo_campaign 3 ''March'' ''2024-03-01''] [] []
         1704067200000 1709078400000 None =
       Inr (''Smartlead_Campaigns_All Clients_2024-01-01_to_2024-02-28.xlsx'',
            [(''Campaign Data'', [data_headers]),
             (''Performance Charts'', chart_labels @ nan_chart_rows),
             (''Summary & Insights'', [[CStr ''No data available for the selected criteria'']]),
             (''Quick Charts'', quick_labels @ nan_quick_rows)])"
proof -
  from empty_export [OF demo_filter_empty, of "[]" "[]"]
  show ?thesis by (simp add: export_filename_def clientStr_def demo_lib_def) blast
qed

section \<open>Properties of the export orchestrator\<close>

lemma js_round_mono: "x \<le> y \<Longrightarrow> js_round x \<le> js_round y"
  unfolding js_round_def by (rule floor_mono) simp

lemma fetch_progress_mono: "i \<le> j \<Longrightarrow> fetch_progress n i \<le> fetch_progress n j"
proof -
  assume "i \<le> j"
  then have "(of_nat i :: rat) / of_nat n * 80 \<le> of_nat j / of_nat n * 80"
    by (simp add: divide_right_mono)
  then show ?thesis by (simp add: fetch_progress_def js_round_mono)
qed

lemma fetch_progress_bounds:
  assumes "i < n"
  shows "5 \<le> fetch_progress n i \<and> fetch_progress n i \<le> 85"
proof -
  have "(0 :: rat) \<le> of_nat i / of_nat n * 80" by simp
  then have "js_round 0 \<le> js_round (of_nat i / of_nat n * 80)" by (rule js_round_mono)
  moreover have "js_round 0 = 0" by (simp add: js_round_def floor_eq_iff)
  ultimately have lower: "0 \<le> js_round (of_nat i / of_nat n * 80)" by simp
  from assms have "(of_nat i :: rat) / of_nat n \<le> 1" by simp
  then have "(of_nat i :: rat) / of_nat n * 80 \<le> 1 * 80" by (rule mult_right_mono) simp
  then have "(of_nat i :: rat) / of_nat n * 80 \<le> 80" by (simp only: mult_1)
  then have "js_round (of_nat i / of_nat n * 80) \<le> js_round 80" by (rule js_round_mono)
  moreover have "js_round 80 = 80" by (simp add: js_round_def floor_eq_iff)
  ultimately have "js_round (of_nat i / of_nat n * 80) \<le> 80" by simp
  with lower show ?thesis by (simp add: fetch_progress_def)
qed

lemma sorted_steps: "sorted (map (fetch_progress n) (filter P [0..<n]))"
proof -
  have "sorted_wrt (\<lambda>i j. fetch_progress n i \<le> fetch_progress n j) [0..<n]"
    by (rule sorted_wrt_mono_rel [of _ "(\<le>)"]) (simp_all add: fetch_progress_mono)
  then have "sorted (map (fetch_progress n) [0..<n])" by (simp add: sorted_map)
  then show ?thesis by (rule sorted_filter)
qed

lemma steps_bounds:
  "\<forall>p\<in>set (map (fetch_progress n) (filter P [0..<n])). 5 \<le> p \<and> p \<le> 85"
  using fetch_progress_bounds by auto

lemma all_settle_in_order: "list_all (\<lambda>i. i \<in> set [0..<n]) [0..<n]"
  by (simp add: list_all_iff)

lemma handleExport_progress:
  assumes "s \<le> e"
    and "list_all (\<lambda>i. i \<in> set order)
           [0..<length (filter (modal_filter L s e exportClientId) campaigns)]"
  shows "progress (handleExport L campaigns clients (Some s) (Some e) exportClientId fetch order) =
     [0, 5] @
     map (fetch_progress (length (filter (modal_filter L s e exportClientId) campaigns)))
       (filter (fetched fetch)
          (filter (\<lambda>i. i < length (filter (modal_filter L s e exportClientId) campaigns)) order)) @
     [85, 100, 0]"
  using assms by (simp add: handleExport_def Let_def)

lemma demo_all_in_range:
  "filter (modal_filter demo_lib 1704067200000 1711843200000 ''all'') demo_campaigns = demo_campaigns"
  by (simp add: modal_filter_def isInDateRange_def demo_lib_def demo_campaigns_def demo_campaign_def)

lemma demo_campaigns_length: "length demo_campaigns = 3"
  by (simp add: demo_campaigns_def)

lemma upt_3: "[0..<3] = [0, 1, 2]"
  by (simp add: upt_rec)

lemma demo_steps: "map (fetch_progress 3) (filter (fetched demo_fetch) [0, 1, 2]) = [5, 58]"
  by code_simp

lemma demo_no_campaigns:
  "filter (modal_filter demo_lib 1704067200000 1711843200000 ''all'') [] = []"
  by simp

lemma demo_steps_reversed:
  "map (fetch_progress 3) (filter (fetched demo_fetch) (filter (\<lambda>i. i < 3) [2, 1, 0])) = [58, 5]"
  by code_simp







subsection \<open>Partial failure\<close>







subsection \<open>The progress channel\<close>

text \<open>
  Claim C4, as the specification states it, fails, in two ways.  After the 100 of
  completion the \<open>finally\<close> block of \<open>handleExport\<close> sets the progress back to 0, in
  every run: an export without campaigns emits 0, 5, 85, 100, 0.  And the value emitted
  when a fetch settles is computed from the index of its campaign in the list, not from
  the number of fetches settled so far: if the fetches of three campaigns settled in the
  order 2, 1, 0 (the second one failing), the values 58 and then 5 would be emitted.
\<close>

theorem progress_counterexample:
  "progress (handleExport demo_lib [] [] (Some 1704067200000) (Some 1711843200000) ''all''
       demo_fetch []) = [0, 5, 85, 100, 0] \<and>
   \<not> sorted [0, 5, 85, 100, 0 :: int] \<and>
   progress (handleExport demo_lib demo_campaigns [] (Some 1704067200000) (Some 1711843200000)
       ''all'' demo_fetch [2, 1, 0]) = [0, 5, 58, 5, 85, 100, 0] \<and>
   \<not> sorted [0, 5, 58, 5 :: int]"
proof -
  have le: "(1704067200000 :: int) \<le> 1711843200000" by simp
  have none: "list_all (\<lambda>i. i \<in> set [])
      [0..<length (filter (modal_filter demo_lib 1704067200000 1711843200000 ''all'') [])]"
    by simp
  have three: "list_all (\<lambda>i. i \<in> set [2, 1, 0])
      [0..<length (filter (modal_filter demo_lib 1704067200000 1711843200000 ''all'') demo_campaigns)]"
    by (simp add: demo_all_in_range demo_campaigns_length upt_3)
  have a: "progress (handleExport demo_lib [] [] (Some 1704067200000) (Some 1711843200000) ''all''
       demo_fetch []) = [0, 5, 85, 100, 0]"
    using handleExport_progress [OF le none, of "[]" demo_fetch] by simp
  have b: "progress (handleExport demo_lib demo_campaigns [] (Some 1704067200000)
       (Some 1711843200000) ''all'' demo_fetch [2, 1, 0]) = [0, 5, 58, 5, 85, 100, 0]"
    using handleExport_progress [OF le three, of "[]" demo_fetch]
    by (simp only: demo_all_in_range demo_campaigns_length demo_steps_reversed) simp
  from a b show ?thesis by simp
qed

text \<open>
  Claim C4, amended.  When the fetches settle in the order of the campaign list, which
  is the order in which the serial queue of the gateway settles them
  (\<open>callers_settle_in_call_order\<close>), the values emitted
  from the start of a run to its completion are non-decreasing integers in [0,100]: 0
  and 5 at the start, \<open>5 + round(index / M * 80)\<close>, a value between 5 and 85, for each
  fetch that succeeds (a failed fetch emits nothing), then 85 at document assembly and
  100 at completion.  After that the run ends by resetting the channel to 0.
\<close>

theorem progress_nondecreasing_until_reset:
  assumes "s \<le> e"
    and "order = [0..<length (filter (modal_filter L s e exportClientId) campaigns)]"
  shows "\<exists>steps.
     progress (handleExport L campaigns clients (Some s) (Some e) exportClientId fetch order) =
       [0, 5] @ steps @ [85, 100, 0] \<and>
     steps = map (fetch_progress (length (filter (modal_filter L s e exportClientId) campaigns)))
               (filter (fetched fetch)
                  [0..<length (filter (modal_filter L s e exportClientId) campaigns)]) \<and>
     (\<forall>p\<in>set steps. 5 \<le> p \<and> p \<le> 85) \<and>
     sorted ([0, 5] @ steps @ [85, 100])"
proof -
  define n where "n = length (filter (modal_filter L s e exportClientId) campaigns)"
  define steps where "steps = map (fetch_progress n) (filter (fetched fetch) [0..<n])"
  have settled: "filter (\<lambda>i. i < n) [0..<n] = [0..<n]" by (simp add: filter_id_conv)
  have p: "progress (handleExport L campaigns clients (Some s) (Some e) exportClientId fetch order) =
       [0, 5] @ steps @ [85, 100, 0]"
    using handleExport_progress [of s e order L exportClientId campaigns clients fetch]
      assms all_settle_in_order [of n]
    by (simp add: steps_def settled flip: n_def)
  have b: "\<forall>p\<in>set steps. 5 \<le> p \<and> p \<le> 85"
    unfolding steps_def by (rule steps_bounds)
  have "sorted steps" unfolding steps_def by (rule sorted_steps)
  with b have "sorted ([0, 5] @ steps @ [85, 100])"
    by (fastforce simp add: sorted_append)
  with p b show ?thesis unfolding steps_def n_def by blast
qed

theorem progress_nondecreasing_until_reset_witness:
  "progress (handleExport demo_lib demo_campaigns [] (Some 1704067200000) (Some 1711843200000)
       ''all'' demo_fetch [0, 1, 2]) = [0, 5, 5, 58, 85, 100, 0] \<and>
   sorted [0, 5, 5, 58, 85, 100 :: int]"
proof -
  have le: "(1704067200000 :: int) \<le> 1711843200000" by simp
  have ord: "[0, 1, 2] =
      [0..<length (filter (modal_filter demo_lib 1704067200000 1711843200000 ''all'') demo_campaigns)]"
    by (simp add: demo_all_in_range demo_campaigns_length upt_3)
  from progress_nondecreasing_until_reset [OF le ord, of "[]" demo_fetch]
  obtain steps where
    p: "progress (handleExport demo_lib demo_campaigns [] (Some 1704067200000)
          (Some 1711843200000) ''all'' demo_fetch [0, 1, 2]) = [0, 5] @ steps @ [85, 100, 0]"
    and st: "steps = map (fetch_progress (length (filter
          (modal_filter demo_lib 1704067200000 1711843200000 ''all'') demo_campaigns)))
        (filter (fetched demo_fetch) [0..<length (filter
          (modal_filter demo_lib 1704067200000 1711843200000 ''all'') demo_campaigns)])"
    and so: "sorted ([0, 5] @ steps @ [85, 100])"
    by blast
  have "steps = [5, 58]"
    unfolding st by (simp only: demo_all_in_range demo_campaigns_length upt_3 demo_steps)
  with p so show ?thesis by simp
qed

end
